theory Spec2Isabelle
  imports Main "HOL-Library.Word" "HOL-Library.Log_Nat"
begin

unbundle bit_operations_syntax

section \<open>Machine types\<close>

type_synonym u8 = "8 word"
type_synonym i16 = "16 word"
type_synonym u16 = "16 word"
type_synonym u32 = "32 word"

section \<open>VTX 5.8 GHz band and channel table\<close>

definition VTX_STRING_BAND_COUNT :: int where
  "VTX_STRING_BAND_COUNT = 2"

definition VTX_STRING_CHAN_COUNT :: int where
  "VTX_STRING_CHAN_COUNT = 8"

definition vtx58frequencyTable :: "u16 list list" where
  "vtx58frequencyTable =
     [[5658, 5695, 5732, 5769, 5806, 5843, 5880, 5917],
      [5362, 5399, 5436, 5473, 5510, 5547, 5584, 5621]]"

text \<open>
  The inner \<open>for\<close> loop of \<open>vtx58_Freq2Bandchan\<close>, entered at \<open>channel\<close>: \<open>Some\<close> is the
  early \<open>return true\<close> with the two values stored through \<open>pBand\<close> and \<open>pChannel\<close>
  (an \<open>int\<close> narrowed to \<open>uint8_t\<close>), \<open>None\<close> is the loop running to its end.
\<close>

function vtx58_Freq2Bandchan_channels :: "u16 \<Rightarrow> int \<Rightarrow> int \<Rightarrow> (u8 \<times> u8) option" where
  "vtx58_Freq2Bandchan_channels freq band channel =
     (if channel < VTX_STRING_CHAN_COUNT then
        if vtx58frequencyTable ! nat band ! nat channel = freq
        then Some (word_of_int (band + 1), word_of_int (channel + 1))
        else vtx58_Freq2Bandchan_channels freq band (channel + 1)
      else None)"
  by pat_completeness auto
termination
  by (relation "measure (\<lambda>(freq, band, channel). nat (VTX_STRING_CHAN_COUNT - channel))") auto

text \<open>The outer loop, counting \<open>band\<close> down to 0, and the stores of 0 after it.\<close>

function vtx58_Freq2Bandchan_bands :: "u16 \<Rightarrow> int \<Rightarrow> bool \<times> u8 \<times> u8" where
  "vtx58_Freq2Bandchan_bands freq band =
     (if band \<ge> 0 then
        case vtx58_Freq2Bandchan_channels freq band 0 of
          Some (pBand, pChannel) \<Rightarrow> (True, pBand, pChannel)
        | None \<Rightarrow> vtx58_Freq2Bandchan_bands freq (band - 1)
      else (False, 0, 0))"
  by pat_completeness auto
termination
  by (relation "measure (\<lambda>(freq, band). nat (band + 1))") auto

text \<open>The result is the returned flag with the final contents of \<open>*pBand\<close> and \<open>*pChannel\<close>.\<close>

definition vtx58_Freq2Bandchan :: "u16 \<Rightarrow> bool \<times> u8 \<times> u8" where
  "vtx58_Freq2Bandchan freq = vtx58_Freq2Bandchan_bands freq (VTX_STRING_BAND_COUNT - 1)"

definition vtx58_Bandchan2Freq :: "u8 \<Rightarrow> u8 \<Rightarrow> u16" where
  "vtx58_Bandchan2Freq band channel =
     (if band > 0 \<and> uint band \<le> VTX_STRING_BAND_COUNT \<and>
         channel > 0 \<and> uint channel \<le> VTX_STRING_CHAN_COUNT
      then vtx58frequencyTable ! nat (uint band - 1) ! nat (uint channel - 1)
      else 0)"

section \<open>Single-precision arithmetic\<close>

text \<open>
  A \<open>float\<close> is modelled by the rational number it denotes. Every floating-point
  operation of the driver is the exact operation followed by \<open>f32_round\<close>: rounding to the
  nearest value with a 24-bit significand, ties to even, with the exponent of the last
  place no smaller than \<open>-149\<close>. Infinities and NaN are outside the model: with the
  gains the driver holds (at most 30) every magnitude it computes is below \<open>2 ^ 20\<close>.
\<close>

definition rnd_even :: "rat \<Rightarrow> int" where
  "rnd_even x =
     (let f = \<lfloor>x\<rfloor>; d = x - of_int f
      in if d < 1 / 2 then f else if 1 / 2 < d then f + 1 else if even f then f else f + 1)"

text \<open>The exponent of the unit in the last place of a positive \<open>a\<close>: \<open>\<lfloor>log\<^sub>2 a\<rfloor> - 23\<close>.\<close>

definition f32_ulp_exp :: "rat \<Rightarrow> int" where
  "f32_ulp_exp a =
     max (- 149) ((if 1 \<le> a then bitlen \<lfloor>a\<rfloor> - 1 else - bitlen (\<lceil>1 / a\<rceil> - 1)) - 23)"

definition scale2 :: "int \<Rightarrow> rat" where
  "scale2 e = (if 0 \<le> e then 2 ^ nat e else 1 / 2 ^ nat (- e))"

definition f32_round :: "rat \<Rightarrow> rat" where
  "f32_round q =
     (if q = 0 then 0
      else let u = scale2 (f32_ulp_exp \<bar>q\<bar>)
           in sgn q * of_int (rnd_even (\<bar>q\<bar> / u)) * u)"

definition f32_of_int :: "int \<Rightarrow> rat" where
  "f32_of_int i = f32_round (of_int i)"

definition f32_sub :: "rat \<Rightarrow> rat \<Rightarrow> rat" where
  "f32_sub a b = f32_round (a - b)"

definition f32_add :: "rat \<Rightarrow> rat \<Rightarrow> rat" where
  "f32_add a b = f32_round (a + b)"

definition f32_mul :: "rat \<Rightarrow> rat \<Rightarrow> rat" where
  "f32_mul a b = f32_round (a * b)"

definition f32_div :: "rat \<Rightarrow> rat \<Rightarrow> rat" where
  "f32_div a b = f32_round (a / b)"

text \<open>
  The conversion of a \<open>float\<close> to \<open>int16_t\<close>: the fractional part is discarded and the low
  16 bits of the integer are kept, which is what the target's conversion followed by a
  halfword store leaves in memory (C itself defines the result only when the integer fits).
\<close>

definition f32_trunc :: "rat \<Rightarrow> int" where
  "f32_trunc x = (if x < 0 then - \<lfloor>- x\<rfloor> else \<lfloor>x\<rfloor>)"

definition f2i16 :: "rat \<Rightarrow> i16" where
  "f2i16 x = word_of_int (f32_trunc x)"

section \<open>AK8963 compass driver: constants\<close>

definition AK8963_MAG_I2C_ADDRESS :: u8 where "AK8963_MAG_I2C_ADDRESS = 0x0C"
definition AK8963_MAG_REG_STATUS1 :: u8 where "AK8963_MAG_REG_STATUS1 = 0x02"
definition AK8963_MAG_REG_HXL :: u8 where "AK8963_MAG_REG_HXL = 0x03"
definition AK8963_MAG_REG_STATUS2 :: u8 where "AK8963_MAG_REG_STATUS2 = 0x09"
definition AK8963_MAG_REG_CNTL1 :: u8 where "AK8963_MAG_REG_CNTL1 = 0x0a"
definition AK8963_MAG_REG_ASAX :: u8 where "AK8963_MAG_REG_ASAX = 0x10"
definition READ_FLAG :: u8 where "READ_FLAG = 0x80"
definition STATUS1_DATA_READY :: u8 where "STATUS1_DATA_READY = 0x01"
definition STATUS2_DATA_ERROR :: u8 where "STATUS2_DATA_ERROR = 0x02"
definition STATUS2_MAG_SENSOR_OVERFLOW :: u8 where "STATUS2_MAG_SENSOR_OVERFLOW = 0x03"
definition CNTL1_MODE_POWER_DOWN :: u8 where "CNTL1_MODE_POWER_DOWN = 0x00"
definition CNTL1_MODE_ONCE :: u8 where "CNTL1_MODE_ONCE = 0x01"
definition CNTL1_MODE_FUSE_ROM :: u8 where "CNTL1_MODE_FUSE_ROM = 0x0F"

text \<open>
  Modelled from the spec: \<open>common/axis.h\<close> is not among the sources. The three spatial
  axes index the gain, trim and sample arrays in register order.
\<close>

definition X :: nat where "X = 0"
definition Y :: nat where "Y = 1"
definition Z :: nat where "Z = 2"

text \<open>
  Modelled from the spec: \<open>drivers/accgyro/accgyro_mpu.h\<close> is not among the sources. The
  shadow registers of the proxying device (slave address, slave register, control,
  data out, and the start of the external sensor data) are kept as names.
\<close>

datatype mpu_reg =
    MPU_RA_I2C_SLV0_ADDR
  | MPU_RA_I2C_SLV0_REG
  | MPU_RA_I2C_SLV0_CTRL
  | MPU_RA_I2C_SLV0_DO
  | MPU_RA_EXT_SENS_DATA_00

section \<open>The driver's state and its surroundings\<close>

record queuedReadState_t =
  waiting :: bool
  len :: u8
  readStartedAt :: u32

datatype ak8963ReadState_e = CHECK_STATUS | WAITING_FOR_STATUS | WAITING_FOR_DATA

text \<open>Every call that leaves the driver, in the order it is made.\<close>

datatype event =
    SpiWrite mpu_reg u8
  | SpiReadBuf mpu_reg u8
  | DelayUs u32
  | DelayMs u32
  | DisableIrq
  | EnableIrq
  | I2cRead u8 u8 u8
  | I2cWrite u8 u8 u8

text \<open>
  The file-scope variables \<open>queuedRead\<close> and \<open>magGain\<close>, the function-local static
  \<open>state\<close> of \<open>ak8963Read\<close>, the calls made so far, and what the surroundings will
  answer: \<open>clock k\<close> is the value of the \<open>k\<close>-th coming call of \<open>micros()\<close>, \<open>bus k\<close> the
  acknowledgement and bytes of the \<open>k\<close>-th coming buffer read, \<open>wack k\<close> the
  acknowledgement of the \<open>k\<close>-th coming I2C write, and \<open>stack\<close> the indeterminate
  contents of an uninitialised local buffer. Arrays are functions from the index.
\<close>

record machine =
  queuedRead :: queuedReadState_t
  state :: ak8963ReadState_e
  magGain :: "nat \<Rightarrow> rat"
  trace :: "event list"
  clock :: "nat \<Rightarrow> u32"
  bus :: "nat \<Rightarrow> bool \<times> (nat \<Rightarrow> u8)"
  wack :: "nat \<Rightarrow> bool"
  stack :: "nat \<Rightarrow> u8"

definition emit :: "event \<Rightarrow> machine \<Rightarrow> machine" where
  "emit e m = m\<lparr>trace := trace m @ [e]\<rparr>"

text \<open>Modelled from the spec: the microsecond clock \<open>micros()\<close> of \<open>drivers/time.h\<close>.\<close>

definition micros :: "machine \<Rightarrow> u32 \<times> machine" where
  "micros m = (clock m 0, m\<lparr>clock := (\<lambda>k. clock m (Suc k))\<rparr>)"

text \<open>Modelled from the spec: the blocking waits \<open>delayMicroseconds\<close> and \<open>delay\<close>.\<close>

definition delayMicroseconds :: "u32 \<Rightarrow> machine \<Rightarrow> machine" where
  "delayMicroseconds us m = emit (DelayUs us) m"

definition delay :: "u32 \<Rightarrow> machine \<Rightarrow> machine" where
  "delay ms m = emit (DelayMs ms) m"

text \<open>
  Modelled from the spec: the transport's register write and buffered register read of
  \<open>drivers/bus_spi.h\<close>, and \<open>i2cRead\<close> and \<open>i2cWrite\<close> of \<open>drivers/bus_i2c.h\<close>. A buffer
  read of \<open>n\<close> bytes overwrites the first \<open>n\<close> bytes of the buffer and reports whether the
  bus acknowledged.
\<close>

definition spiBusWriteRegister :: "mpu_reg \<Rightarrow> u8 \<Rightarrow> machine \<Rightarrow> machine" where
  "spiBusWriteRegister reg data m = emit (SpiWrite reg data) m"

definition fill :: "(nat \<Rightarrow> u8) \<Rightarrow> u8 \<Rightarrow> (nat \<Rightarrow> u8) \<Rightarrow> nat \<Rightarrow> u8" where
  "fill bytes n buf = (\<lambda>i. if i < unat n then bytes i else buf i)"

definition spiBusReadRegisterBuffer ::
  "mpu_reg \<Rightarrow> (nat \<Rightarrow> u8) \<Rightarrow> u8 \<Rightarrow> machine \<Rightarrow> bool \<times> (nat \<Rightarrow> u8) \<times> machine" where
  "spiBusReadRegisterBuffer reg buf n m =
     (fst (bus m 0), fill (snd (bus m 0)) n buf,
      emit (SpiReadBuf reg n) (m\<lparr>bus := (\<lambda>k. bus m (Suc k))\<rparr>))"

definition i2cRead ::
  "u8 \<Rightarrow> u8 \<Rightarrow> u8 \<Rightarrow> (nat \<Rightarrow> u8) \<Rightarrow> machine \<Rightarrow> bool \<times> (nat \<Rightarrow> u8) \<times> machine" where
  "i2cRead addr reg n buf m =
     (fst (bus m 0), fill (snd (bus m 0)) n buf,
      emit (I2cRead addr reg n) (m\<lparr>bus := (\<lambda>k. bus m (Suc k))\<rparr>))"

definition i2cWrite :: "u8 \<Rightarrow> u8 \<Rightarrow> u8 \<Rightarrow> machine \<Rightarrow> bool \<times> machine" where
  "i2cWrite addr reg data m =
     (wack m 0, emit (I2cWrite addr reg data) (m\<lparr>wack := (\<lambda>k. wack m (Suc k))\<rparr>))"

section \<open>AK8963 compass driver: SPI pass-through build\<close>

definition spiWriteRegisterDelay :: "mpu_reg \<Rightarrow> u8 \<Rightarrow> machine \<Rightarrow> bool \<times> machine" where
  "spiWriteRegisterDelay reg data m =
     (True, delayMicroseconds 10 (spiBusWriteRegister reg data m))"

definition ak8963SensorRead_spi ::
  "u8 \<Rightarrow> u8 \<Rightarrow> u8 \<Rightarrow> (nat \<Rightarrow> u8) \<Rightarrow> machine \<Rightarrow> bool \<times> (nat \<Rightarrow> u8) \<times> machine" where
  "ak8963SensorRead_spi addr reg n buf m =
     (let m1 = snd (spiWriteRegisterDelay MPU_RA_I2C_SLV0_ADDR (addr OR READ_FLAG) m);
          m2 = snd (spiWriteRegisterDelay MPU_RA_I2C_SLV0_REG reg m1);
          m3 = snd (spiWriteRegisterDelay MPU_RA_I2C_SLV0_CTRL (n OR 0x80) m2);
          m4 = delay 4 m3;
          m5 = emit DisableIrq m4;
          (ack, buf', m6) = spiBusReadRegisterBuffer MPU_RA_EXT_SENS_DATA_00 buf n m5;
          m7 = emit EnableIrq m6
      in (ack, buf', m7))"

definition ak8963SensorWrite_spi :: "u8 \<Rightarrow> u8 \<Rightarrow> u8 \<Rightarrow> machine \<Rightarrow> bool \<times> machine" where
  "ak8963SensorWrite_spi addr reg data m =
     (let m1 = snd (spiWriteRegisterDelay MPU_RA_I2C_SLV0_ADDR addr m);
          m2 = snd (spiWriteRegisterDelay MPU_RA_I2C_SLV0_REG reg m1);
          m3 = snd (spiWriteRegisterDelay MPU_RA_I2C_SLV0_DO data m2);
          m4 = snd (spiWriteRegisterDelay MPU_RA_I2C_SLV0_CTRL 0x81 m3)
      in (True, m4))"

definition ak8963SensorStartRead :: "u8 \<Rightarrow> u8 \<Rightarrow> u8 \<Rightarrow> machine \<Rightarrow> bool \<times> machine" where
  "ak8963SensorStartRead addr reg n m =
     (if waiting (queuedRead m) then (False, m)
      else
        let m1 = m\<lparr>queuedRead := (queuedRead m)\<lparr>len := n\<rparr>\<rparr>;
            m2 = snd (spiWriteRegisterDelay MPU_RA_I2C_SLV0_ADDR (addr OR READ_FLAG) m1);
            m3 = snd (spiWriteRegisterDelay MPU_RA_I2C_SLV0_REG reg m2);
            m4 = snd (spiWriteRegisterDelay MPU_RA_I2C_SLV0_CTRL (n OR 0x80) m3);
            (now, m5) = micros m4;
            m6 = m5\<lparr>queuedRead := (queuedRead m5)\<lparr>readStartedAt := now\<rparr>\<rparr>;
            m7 = m6\<lparr>queuedRead := (queuedRead m6)\<lparr>waiting := True\<rparr>\<rparr>
        in (True, m7))"

text \<open>
  The arithmetic of \<open>ak8963SensorQueuedReadTimeRemaining\<close> once \<open>micros()\<close> has answered
  \<open>now\<close>. The \<open>uint32_t\<close> difference is narrowed to \<open>int32_t\<close>, and its difference from
  8000 is taken in \<open>int32_t\<close>: both are 32-bit two's complement values, the second one
  wrapping where C leaves the overflow undefined (elapsed times from \<open>2 ^ 31\<close> to
  \<open>2 ^ 31 + 8000\<close> microseconds).
\<close>

definition timeRemaining_at :: "u32 \<Rightarrow> u32 \<Rightarrow> u32" where
  "timeRemaining_at started now =
     (let timeSinceStarted = now - started;
          timeRemaining = 8000 - timeSinceStarted
      in if sint timeRemaining < 0 then 0 else timeRemaining)"

definition ak8963SensorQueuedReadTimeRemaining :: "machine \<Rightarrow> u32 \<times> machine" where
  "ak8963SensorQueuedReadTimeRemaining m =
     (if \<not> waiting (queuedRead m) then (0, m)
      else let (now, m1) = micros m
           in (timeRemaining_at (readStartedAt (queuedRead m1)) now, m1))"

definition ak8963SensorCompleteRead ::
  "(nat \<Rightarrow> u8) \<Rightarrow> machine \<Rightarrow> bool \<times> (nat \<Rightarrow> u8) \<times> machine" where
  "ak8963SensorCompleteRead buf m =
     (let (timeRemaining, m1) = ak8963SensorQueuedReadTimeRemaining m;
          m2 = (if timeRemaining > 0 then delayMicroseconds timeRemaining m1 else m1);
          m3 = m2\<lparr>queuedRead := (queuedRead m2)\<lparr>waiting := False\<rparr>\<rparr>;
          (ack, buf', m4) =
            spiBusReadRegisterBuffer MPU_RA_EXT_SENS_DATA_00 buf (len (queuedRead m3)) m3
      in (True, buf', m4))"

text \<open>
  The three stores of \<open>ak8963Read\<close> into \<open>magData\<close>: \<open>(int16_t)(hi << 8 | lo)\<close> is
  computed in \<open>int\<close> and narrowed, its negation is taken in \<open>int\<close>, converted to \<open>float\<close>,
  multiplied by the gain and converted to \<open>int16_t\<close>.
\<close>

definition raw16 :: "u8 \<Rightarrow> u8 \<Rightarrow> i16" where
  "raw16 hi lo = ucast (push_bit 8 (ucast hi :: u32) OR ucast lo)"

definition scaled :: "u8 \<Rightarrow> u8 \<Rightarrow> rat \<Rightarrow> i16" where
  "scaled hi lo gain = f2i16 (f32_mul (f32_of_int (- sint (raw16 hi lo))) gain)"

definition store_magData :: "(nat \<Rightarrow> u8) \<Rightarrow> (nat \<Rightarrow> rat) \<Rightarrow> (nat \<Rightarrow> i16) \<Rightarrow> nat \<Rightarrow> i16" where
  "store_magData buf gain magData =
     (let magData1 = magData(X := scaled (buf 1) (buf 0) (gain X));
          magData2 = magData1(Y := scaled (buf 3) (buf 2) (gain Y));
          magData3 = magData2(Z := scaled (buf 5) (buf 4) (gain Z))
      in magData3)"

text \<open>
  \<open>ak8963Read\<close> from the label \<open>restart\<close>, with the current values of the locals \<open>retry\<close>
  and \<open>buf\<close>; \<open>goto restart\<close> is the recursive call. The result is the returned flag, the
  array behind \<open>magData\<close>, and the machine.
\<close>

function ak8963Read_restart ::
  "bool \<Rightarrow> (nat \<Rightarrow> u8) \<Rightarrow> (nat \<Rightarrow> i16) \<Rightarrow> machine \<Rightarrow> bool \<times> (nat \<Rightarrow> i16) \<times> machine" where
  "ak8963Read_restart retry buf magData m =
     (case state m of
        CHECK_STATUS \<Rightarrow>
          let m1 = snd (ak8963SensorStartRead AK8963_MAG_I2C_ADDRESS AK8963_MAG_REG_STATUS1 1 m);
              m2 = m1\<lparr>state := WAITING_FOR_STATUS\<rparr>
          in (False, magData, m2)
      | WAITING_FOR_STATUS \<Rightarrow>
          let (timeRemaining, m1) = ak8963SensorQueuedReadTimeRemaining m
          in if timeRemaining \<noteq> 0 then (False, magData, m1)
             else
               let (ack, buf1, m2) = ak8963SensorCompleteRead buf m1;
                   status = buf1 0
               in if \<not> ack \<or> status AND STATUS1_DATA_READY = 0 then
                    let m3 = m2\<lparr>state := CHECK_STATUS\<rparr>
                    in if retry then ak8963Read_restart False buf1 magData m3
                       else (False, magData, m3)
                  else
                    let m3 = snd (ak8963SensorStartRead AK8963_MAG_I2C_ADDRESS AK8963_MAG_REG_HXL 7 m2);
                        m4 = m3\<lparr>state := WAITING_FOR_DATA\<rparr>
                    in (False, magData, m4)
      | WAITING_FOR_DATA \<Rightarrow>
          let (timeRemaining, m1) = ak8963SensorQueuedReadTimeRemaining m
          in if timeRemaining \<noteq> 0 then (False, magData, m1)
             else
               let (ack, buf1, m2) = ak8963SensorCompleteRead buf m1;
                   status2 = buf1 6
               in if \<not> ack \<or> status2 AND STATUS2_DATA_ERROR \<noteq> 0
                        \<or> status2 AND STATUS2_MAG_SENSOR_OVERFLOW \<noteq> 0
                  then (False, magData, m2)
                  else
                    let magData' = store_magData buf1 (magGain m2) magData;
                        m3 = m2\<lparr>state := CHECK_STATUS\<rparr>;
                        (r, m4) = ak8963SensorWrite_spi AK8963_MAG_I2C_ADDRESS
                                    AK8963_MAG_REG_CNTL1 CNTL1_MODE_ONCE m3
                    in (r, magData', m4))"
  by pat_completeness auto
termination
  by (relation "measure (\<lambda>(retry, buf, magData, m). if retry then 1 else 0)") auto

definition ak8963Read_spi :: "(nat \<Rightarrow> i16) \<Rightarrow> machine \<Rightarrow> bool \<times> (nat \<Rightarrow> i16) \<times> machine" where
  "ak8963Read_spi magData m = ak8963Read_restart True (stack m) magData m"

text \<open>
  \<open>ak8963Init\<close>, over the build's \<open>ak8963SensorRead\<close> and \<open>ak8963SensorWrite\<close>. The gain
  expression is evaluated in \<open>float\<close>, from the trim byte narrowed to \<open>int8_t\<close>.
\<close>

definition gain_of_trim :: "u8 \<Rightarrow> rat" where
  "gain_of_trim c =
     f32_mul
       (f32_add
          (f32_div (f32_sub (f32_of_int (sint c)) (f32_of_int 128)) (f32_of_int 256))
          (f32_of_int 1))
       (f32_of_int 30)"

definition ak8963Init ::
  "(u8 \<Rightarrow> u8 \<Rightarrow> u8 \<Rightarrow> (nat \<Rightarrow> u8) \<Rightarrow> machine \<Rightarrow> bool \<times> (nat \<Rightarrow> u8) \<times> machine) \<Rightarrow>
   (u8 \<Rightarrow> u8 \<Rightarrow> u8 \<Rightarrow> machine \<Rightarrow> bool \<times> machine) \<Rightarrow> machine \<Rightarrow> bool \<times> machine" where
  "ak8963Init ak8963SensorRead ak8963SensorWrite m =
     (let m1 = snd (ak8963SensorWrite AK8963_MAG_I2C_ADDRESS AK8963_MAG_REG_CNTL1
                      CNTL1_MODE_POWER_DOWN m);
          m2 = snd (ak8963SensorWrite AK8963_MAG_I2C_ADDRESS AK8963_MAG_REG_CNTL1
                      CNTL1_MODE_FUSE_ROM m1);
          (ack3, calibration, m3) =
            ak8963SensorRead AK8963_MAG_I2C_ADDRESS AK8963_MAG_REG_ASAX 3 (stack m2) m2;
          m4 = m3\<lparr>magGain := (magGain m3)(X := gain_of_trim (calibration X))\<rparr>;
          m5 = m4\<lparr>magGain := (magGain m4)(Y := gain_of_trim (calibration Y))\<rparr>;
          m6 = m5\<lparr>magGain := (magGain m5)(Z := gain_of_trim (calibration Z))\<rparr>;
          m7 = snd (ak8963SensorWrite AK8963_MAG_I2C_ADDRESS AK8963_MAG_REG_CNTL1
                      CNTL1_MODE_POWER_DOWN m6);
          (ack8, status8, m8) =
            ak8963SensorRead AK8963_MAG_I2C_ADDRESS AK8963_MAG_REG_STATUS1 1 (stack m7) m7;
          (ack9, status9, m9) =
            ak8963SensorRead AK8963_MAG_I2C_ADDRESS AK8963_MAG_REG_STATUS2 1 status8 m8;
          m10 = snd (ak8963SensorWrite AK8963_MAG_I2C_ADDRESS AK8963_MAG_REG_CNTL1
                       CNTL1_MODE_ONCE m9)
      in (True, m10))"

definition ak8963Init_spi :: "machine \<Rightarrow> bool \<times> machine" where
  "ak8963Init_spi = ak8963Init ak8963SensorRead_spi ak8963SensorWrite_spi"

section \<open>AK8963 compass driver: direct I2C build\<close>

definition ak8963SensorRead_i2c ::
  "u8 \<Rightarrow> u8 \<Rightarrow> u8 \<Rightarrow> (nat \<Rightarrow> u8) \<Rightarrow> machine \<Rightarrow> bool \<times> (nat \<Rightarrow> u8) \<times> machine" where
  "ak8963SensorRead_i2c addr reg n buf m = i2cRead addr reg n buf m"

definition ak8963SensorWrite_i2c :: "u8 \<Rightarrow> u8 \<Rightarrow> u8 \<Rightarrow> machine \<Rightarrow> bool \<times> machine" where
  "ak8963SensorWrite_i2c addr reg data m = i2cWrite addr reg data m"

definition ak8963Init_i2c :: "machine \<Rightarrow> bool \<times> machine" where
  "ak8963Init_i2c = ak8963Init ak8963SensorRead_i2c ak8963SensorWrite_i2c"

definition ak8963Read_i2c :: "(nat \<Rightarrow> i16) \<Rightarrow> machine \<Rightarrow> bool \<times> (nat \<Rightarrow> i16) \<times> machine" where
  "ak8963Read_i2c magData m =
     (let (ack, buf1, m1) =
            ak8963SensorRead_i2c AK8963_MAG_I2C_ADDRESS AK8963_MAG_REG_STATUS1 1 (stack m) m;
          status = buf1 0
      in if \<not> ack \<or> status AND STATUS1_DATA_READY = 0 then (False, magData, m1)
         else
           let (ack, buf2, m2) =
                 ak8963SensorRead_i2c AK8963_MAG_I2C_ADDRESS AK8963_MAG_REG_HXL 7 buf1 m1;
               status2 = buf2 6
           in if \<not> ack \<or> status2 AND STATUS2_DATA_ERROR \<noteq> 0
                    \<or> status2 AND STATUS2_MAG_SENSOR_OVERFLOW \<noteq> 0
              then (False, magData, m2)
              else
                let magData' = store_magData buf2 (magGain m2) magData;
                    (r, m3) = ak8963SensorWrite_i2c AK8963_MAG_I2C_ADDRESS
                                AK8963_MAG_REG_CNTL1 CNTL1_MODE_ONCE m2
                in (r, magData', m3))"

text \<open>The machine before any driver call: the initialisers of the file-scope variables.\<close>

definition boot :: "(nat \<Rightarrow> u32) \<Rightarrow> (nat \<Rightarrow> bool \<times> (nat \<Rightarrow> u8)) \<Rightarrow> (nat \<Rightarrow> bool) \<Rightarrow> (nat \<Rightarrow> u8) \<Rightarrow> machine" where
  "boot c b w s =
     \<lparr>queuedRead = \<lparr>waiting = False, len = 0, readStartedAt = 0\<rparr>,
      state = CHECK_STATUS, magGain = (\<lambda>i. 1), trace = [],
      clock = c, bus = b, wack = w, stack = s\<rparr>"

section \<open>Reference notions for the properties\<close>

text \<open>
  The little-endian signed 16-bit value of a register pair, and the sample the
  specification asks for: its negation times the gain, as a \<open>float\<close> product, stored in 16
  bits.
\<close>

definition le_s16 :: "u8 \<Rightarrow> u8 \<Rightarrow> int" where
  "le_s16 lo hi = (let v = uint lo + 256 * uint hi in if v < 32768 then v else v - 65536)"

definition sample_of :: "u8 \<Rightarrow> u8 \<Rightarrow> rat \<Rightarrow> i16" where
  "sample_of lo hi gain = f2i16 (f32_round (of_int (- le_s16 lo hi) * gain))"

text \<open>The gain formula of the specification, in exact arithmetic.\<close>

definition gain_formula :: "int \<Rightarrow> rat" where
  "gain_formula trim = ((of_int trim - 128) / 256 + 1) * 30"

text \<open>
  Gains the driver can hold: the initialiser \<open>1.0f\<close> and the values of the formula are
  multiples of \<open>1 / 256\<close> between 0 and 30.
\<close>

definition gain_ok :: "rat \<Rightarrow> bool" where
  "gain_ok g \<longleftrightarrow> (\<exists>k::int. g = of_int k / 256 \<and> 0 \<le> k \<and> k \<le> 7680)"

text \<open>The machine whose transport acknowledges every coming buffer read.\<close>

definition ack_all :: "(bool \<times> (nat \<Rightarrow> u8)) \<Rightarrow> (bool \<times> (nat \<Rightarrow> u8))" where
  "ack_all r = (True, snd r)"

definition erase_acks :: "machine \<Rightarrow> machine" where
  "erase_acks m = m\<lparr>bus := ack_all \<circ> bus m\<rparr>"

section \<open>Concrete machines\<close>

definition always :: "'a \<Rightarrow> nat \<Rightarrow> 'a" where
  "always c k = c"

definition bytes_of :: "u8 list \<Rightarrow> nat \<Rightarrow> u8" where
  "bytes_of xs i = (if i < length xs then xs ! i else 0)"

definition sample_bytes :: "nat \<Rightarrow> u8" where
  "sample_bytes = bytes_of [0x10, 0x00, 0x20, 0x00, 0x30, 0x00, 0x00]"

definition fault_bytes :: "nat \<Rightarrow> u8" where
  "fault_bytes = bytes_of [0x10, 0x00, 0x20, 0x00, 0x30, 0x00, 0x02]"

text \<open>A 7-byte read queued at time 0, polled at time 8000, gains \<open>7.5\<close>.\<close>

definition data_due :: machine where
  "data_due =
     \<lparr>queuedRead = \<lparr>waiting = True, len = 7, readStartedAt = 0\<rparr>,
      state = WAITING_FOR_DATA, magGain = always (15 / 2), trace = [],
      clock = always 8000, bus = always (False, sample_bytes), wack = always True,
      stack = always 0\<rparr>"

text \<open>The same poll when the sensor reports a data error in status2.\<close>

definition data_fault :: machine where
  "data_fault =
     \<lparr>queuedRead = \<lparr>waiting = True, len = 7, readStartedAt = 0\<rparr>,
      state = WAITING_FOR_DATA, magGain = always 1, trace = [],
      clock = always 8000, bus = always (True, fault_bytes), wack = always True,
      stack = always 0\<rparr>"

text \<open>A 1-byte status read queued at time 0, polled at time 8000, status not ready.\<close>

definition status_due :: machine where
  "status_due =
     \<lparr>queuedRead = \<lparr>waiting = True, len = 1, readStartedAt = 0\<rparr>,
      state = WAITING_FOR_STATUS, magGain = always 1, trace = [],
      clock = always 8000, bus = always (True, always 0), wack = always True,
      stack = always 0\<rparr>"


text \<open>The same status read completed early, 3000 microseconds after it was queued.\<close>

definition status_early :: machine where
  "status_early = status_due\<lparr>clock := always 3000\<rparr>"

text \<open>A read queued at time 0 and looked at \<open>2 ^ 32 - 1\<close> microseconds later.\<close>

definition stale :: machine where
  "stale =
     \<lparr>queuedRead = \<lparr>waiting = True, len = 7, readStartedAt = 0\<rparr>,
      state = WAITING_FOR_DATA, magGain = always 1, trace = [],
      clock = always 0xFFFFFFFF, bus = always (True, sample_bytes), wack = always True,
      stack = always 0\<rparr>"

text \<open>The same read looked at first after 8000 microseconds and then again.\<close>

definition stale_later :: machine where
  "stale_later = stale\<lparr>clock := (always 0xFFFFFFFF)(0 := 8000)\<rparr>"

text \<open>
  The direct I2C build: status ready, data acknowledged, and the write that re-arms the
  sensor acknowledged or not.
\<close>

definition i2c_ready :: "bool \<Rightarrow> machine" where
  "i2c_ready w =
     \<lparr>queuedRead = \<lparr>waiting = False, len = 0, readStartedAt = 0\<rparr>,
      state = CHECK_STATUS, magGain = always (15 / 2), trace = [],
      clock = always 0, bus = (always (True, sample_bytes))(0 := (True, always 1)),
      wack = always w, stack = always 0\<rparr>"

text \<open>The machine at start-up with trim bytes \<open>0xC0\<close>, \<open>0x00\<close>, \<open>0x7F\<close> in the fuse ROM.\<close>

definition fresh :: machine where
  "fresh = boot (always 0) (always (False, bytes_of [0xC0, 0x00, 0x7F])) (always False) (always 0)"

declare vtx58_Freq2Bandchan_channels.simps [simp del]
declare vtx58_Freq2Bandchan_bands.simps [simp del]
declare ak8963Read_restart.simps [simp del]

section \<open>The band and channel table\<close>

lemma vtx58_channels_unrolled:
  "vtx58_Freq2Bandchan_channels freq band 0 =
    (if vtx58frequencyTable ! nat band ! 0 = freq then Some (word_of_int (band + 1), 1)
     else if vtx58frequencyTable ! nat band ! 1 = freq then Some (word_of_int (band + 1), 2)
     else if vtx58frequencyTable ! nat band ! 2 = freq then Some (word_of_int (band + 1), 3)
     else if vtx58frequencyTable ! nat band ! 3 = freq then Some (word_of_int (band + 1), 4)
     else if vtx58frequencyTable ! nat band ! 4 = freq then Some (word_of_int (band + 1), 5)
     else if vtx58frequencyTable ! nat band ! 5 = freq then Some (word_of_int (band + 1), 6)
     else if vtx58frequencyTable ! nat band ! 6 = freq then Some (word_of_int (band + 1), 7)
     else if vtx58frequencyTable ! nat band ! 7 = freq then Some (word_of_int (band + 1), 8)
     else None)"
  by (simp add: vtx58_Freq2Bandchan_channels.simps VTX_STRING_CHAN_COUNT_def)

lemma vtx58_bands_unrolled:
  "vtx58_Freq2Bandchan freq =
     (case vtx58_Freq2Bandchan_channels freq 1 0 of
        Some (b, c) \<Rightarrow> (True, b, c)
      | None \<Rightarrow>
          (case vtx58_Freq2Bandchan_channels freq 0 0 of
             Some (b, c) \<Rightarrow> (True, b, c)
           | None \<Rightarrow> (False, 0, 0)))"
  by (simp add: vtx58_Freq2Bandchan_def vtx58_Freq2Bandchan_bands.simps
      VTX_STRING_BAND_COUNT_def split: option.splits)

lemma u8_between_1_8:
  fixes b :: u8
  assumes "1 \<le> b" "b \<le> 8"
  shows "b \<in> {1, 2, 3, 4, 5, 6, 7, 8}"
proof -
  have "1 \<le> unat b" "unat b \<le> 8"
    using assms by (simp_all add: word_le_nat_alt)
  then have "unat b \<in> {1, 2, 3, 4, 5, 6, 7, 8}"
    by auto
  moreover have "b = of_nat (unat b)"
    by simp
  ultimately show ?thesis
    by (elim insertE emptyE) simp_all
qed

lemma u8_between_1_2:
  fixes b :: u8
  assumes "1 \<le> b" "b \<le> 2"
  shows "b \<in> {1, 2}"
proof -
  have "b \<le> 8"
    using assms(2) by (simp add: word_le_nat_alt)
  with assms(1) have "b \<in> {1, 2, 3, 4, 5, 6, 7, 8}"
    by (rule u8_between_1_8)
  with assms(2) show ?thesis
    by (elim insertE emptyE) simp_all
qed

lemma vtx58_roundtrip_enum:
  "band \<in> {1, 2} \<Longrightarrow> channel \<in> {1, 2, 3, 4, 5, 6, 7, 8} \<Longrightarrow>
   vtx58_Freq2Bandchan (vtx58_Bandchan2Freq band channel) = (True, band, channel)"
  by (elim insertE emptyE;
      simp add: vtx58_bands_unrolled vtx58_channels_unrolled vtx58frequencyTable_def
        vtx58_Bandchan2Freq_def VTX_STRING_BAND_COUNT_def VTX_STRING_CHAN_COUNT_def)

lemma vtx58_Bandchan2Freq_outside:
  "\<not> (1 \<le> band \<and> band \<le> 2 \<and> 1 \<le> channel \<and> channel \<le> 8) \<Longrightarrow>
   vtx58_Bandchan2Freq band channel = 0"
  by (auto simp: vtx58_Bandchan2Freq_def VTX_STRING_BAND_COUNT_def VTX_STRING_CHAN_COUNT_def
      word_le_def word_less_def)

lemma vtx58_Freq2Bandchan_unknown:
  "freq \<notin> set (concat vtx58frequencyTable) \<Longrightarrow> vtx58_Freq2Bandchan freq = (False, 0, 0)"
  by (simp add: vtx58_bands_unrolled vtx58_channels_unrolled vtx58frequencyTable_def)

lemma vtx58_table_distinct: "distinct (concat vtx58frequencyTable)"
  by (simp add: vtx58frequencyTable_def)

text \<open>
  C10. For every band in 1..2 and channel in 1..8, looking up the frequency of the pair
  gives back \<open>true\<close> with exactly that band and channel, the sixteen table entries being
  pairwise distinct; for every pair \<open>(b, c)\<close> outside those ranges
  \<open>vtx58_Bandchan2Freq\<close> returns 0; and for every frequency that is not in the table
  \<open>vtx58_Freq2Bandchan\<close> returns \<open>false\<close> and stores 0 in both outputs.
\<close>

theorem vtx58_bandchan_roundtrip:
  "(1 \<le> band \<and> band \<le> 2 \<and> 1 \<le> channel \<and> channel \<le> 8 \<longrightarrow>
      vtx58_Freq2Bandchan (vtx58_Bandchan2Freq band channel) = (True, band, channel))
   \<and> distinct (concat vtx58frequencyTable)
   \<and> (\<not> (1 \<le> b \<and> b \<le> 2 \<and> 1 \<le> c \<and> c \<le> 8) \<longrightarrow> vtx58_Bandchan2Freq b c = 0)
   \<and> (freq \<notin> set (concat vtx58frequencyTable) \<longrightarrow>
        vtx58_Freq2Bandchan freq = (False, 0, 0))"
proof (intro conjI impI)
  assume "1 \<le> band \<and> band \<le> 2 \<and> 1 \<le> channel \<and> channel \<le> 8"
  then have r: "1 \<le> band" "band \<le> 2" "1 \<le> channel" "channel \<le> 8"
    by simp_all
  have "band \<in> {1, 2}"
    using r(1,2) by (rule u8_between_1_2)
  moreover have "channel \<in> {1, 2, 3, 4, 5, 6, 7, 8}"
    using r(3,4) by (rule u8_between_1_8)
  ultimately show "vtx58_Freq2Bandchan (vtx58_Bandchan2Freq band channel) = (True, band, channel)"
    by (rule vtx58_roundtrip_enum)
next
  show "distinct (concat vtx58frequencyTable)"
    by (rule vtx58_table_distinct)
next
  assume "\<not> (1 \<le> b \<and> b \<le> 2 \<and> 1 \<le> c \<and> c \<le> 8)"
  then show "vtx58_Bandchan2Freq b c = 0"
    by (rule vtx58_Bandchan2Freq_outside)
next
  assume "freq \<notin> set (concat vtx58frequencyTable)"
  then show "vtx58_Freq2Bandchan freq = (False, 0, 0)"
    by (rule vtx58_Freq2Bandchan_unknown)
qed

theorem vtx58_bandchan_roundtrip_witness:
  "vtx58_Freq2Bandchan (vtx58_Bandchan2Freq 1 7) = (True, 1, 7)
   \<and> vtx58_Bandchan2Freq 1 7 = 5880
   \<and> vtx58_Bandchan2Freq 3 1 = 0
   \<and> vtx58_Bandchan2Freq 2 9 = 0
   \<and> vtx58_Freq2Bandchan 5740 = (False, 0, 0)"
proof -
  have in_range: "(1::u8) \<le> 1 \<and> (1::u8) \<le> 2 \<and> (1::u8) \<le> 7 \<and> (7::u8) \<le> 8"
    by simp
  have band_out: "\<not> ((1::u8) \<le> 3 \<and> (3::u8) \<le> 2 \<and> (1::u8) \<le> 1 \<and> (1::u8) \<le> 8)"
    by simp
  have chan_out: "\<not> ((1::u8) \<le> 2 \<and> (2::u8) \<le> 2 \<and> (1::u8) \<le> 9 \<and> (9::u8) \<le> 8)"
    by simp
  have absent: "(5740::u16) \<notin> set (concat vtx58frequencyTable)"
    by (simp add: vtx58frequencyTable_def)
  have "vtx58_Bandchan2Freq 1 7 = 5880"
    by (simp add: vtx58_Bandchan2Freq_def vtx58frequencyTable_def
        VTX_STRING_BAND_COUNT_def VTX_STRING_CHAN_COUNT_def)
  then show ?thesis
    using vtx58_bandchan_roundtrip [of 1 7 3 1 5740] vtx58_bandchan_roundtrip [of 1 7 2 9 5740]
      in_range band_out chan_out absent
    by simp
qed

section \<open>Two's complement readings\<close>

lemma sint_u32: "sint (w :: u32) = (if uint w < 2 ^ 31 then uint w else uint w - 2 ^ 32)"
proof -
  have b: "0 \<le> uint w" "uint w < 2 ^ 32"
    using uint_lt2p[of w] by simp_all
  have "sint w = (uint w + 2 ^ 31) mod 2 ^ 32 - 2 ^ 31"
    by (simp add: sint_uint signed_take_bit_eq_take_bit_shift take_bit_eq_mod)
  also have "\<dots> = (if uint w < 2 ^ 31 then uint w else uint w - 2 ^ 32)"
  proof (cases "uint w < 2 ^ 31")
    case True
    then have "(uint w + 2 ^ 31) mod 2 ^ 32 = uint w + 2 ^ 31"
      using b by (intro mod_pos_pos_trivial) simp_all
    with True show ?thesis by simp
  next
    case False
    have "(uint w + 2 ^ 31) mod 2 ^ 32 = (uint w + 2 ^ 31 - 2 ^ 32) mod 2 ^ 32"
      by (metis mod_diff_right_eq mod_self diff_zero)
    also have "\<dots> = uint w + 2 ^ 31 - 2 ^ 32"
      using b False by (intro mod_pos_pos_trivial) simp_all
    finally show ?thesis using False by simp
  qed
  finally show ?thesis .
qed

lemma uint_8000_sub:
  fixes e :: u32
  shows "uint (8000 - e) = (if uint e \<le> 8000 then 8000 - uint e else 8000 - uint e + 2 ^ 32)"
proof -
  have b: "0 \<le> uint e" "uint e < 4294967296"
    using uint_lt2p[of e] by simp_all
  have *: "uint (8000 - e) = (8000 - uint e) mod 4294967296"
    by (simp add: uint_word_ariths)
  show ?thesis
  proof (cases "uint e \<le> 8000")
    case True
    have "(8000 - uint e) mod 4294967296 = 8000 - uint e"
      by (rule mod_pos_pos_trivial) (use b True in linarith)+
    with True * show ?thesis by simp
  next
    case False
    have "(8000 - uint e) mod 4294967296 = (8000 - uint e + 4294967296) mod 4294967296"
      by (simp only: mod_add_self2)
    also have "\<dots> = 8000 - uint e + 4294967296"
      by (rule mod_pos_pos_trivial) (use b False in linarith)+
    finally show ?thesis using False * by simp
  qed
qed

text \<open>What \<open>timeRemaining_at\<close> computes, over the whole range of the 32-bit difference.\<close>

lemma timeRemaining_at_uint:
  "uint (timeRemaining_at s now) =
     (if uint (now - s) \<le> 8000 then 8000 - uint (now - s)
      else if uint (now - s) \<le> 2 ^ 31 + 8000 then 0
      else 2 ^ 32 + 8000 - uint (now - s))"
proof -
  define e where "e = now - s"
  have b: "0 \<le> uint e" "uint e < 4294967296"
    using uint_lt2p[of e] by simp_all
  have tr: "timeRemaining_at s now = (if sint (8000 - e) < 0 then 0 else 8000 - e)"
    by (simp add: timeRemaining_at_def e_def)
  consider "uint e \<le> 8000" | "8000 < uint e" "uint e \<le> 2147491648" | "2147491648 < uint e"
    by linarith
  then have "uint (timeRemaining_at s now) =
     (if uint e \<le> 8000 then 8000 - uint e
      else if uint e \<le> 2147491648 then 0
      else 4294975296 - uint e)"
  proof cases
    case 1
    then have u: "uint (8000 - e) = 8000 - uint e"
      by (simp add: uint_8000_sub)
    moreover have "uint (8000 - e) < 2147483648"
      using b 1 u by linarith
    ultimately have "sint (8000 - e) = 8000 - uint e"
      by (simp add: sint_u32)
    then show ?thesis using 1 u by (simp add: tr)
  next
    case 2
    then have u: "uint (8000 - e) = 4294975296 - uint e"
      by (simp add: uint_8000_sub)
    moreover have "\<not> uint (8000 - e) < 2147483648"
      using b 2 u by linarith
    ultimately have "sint (8000 - e) = 8000 - uint e"
      by (simp add: sint_u32)
    then show ?thesis using 2 by (simp add: tr)
  next
    case 3
    then have u: "uint (8000 - e) = 4294975296 - uint e"
      by (simp add: uint_8000_sub)
    moreover have "uint (8000 - e) < 2147483648"
      using b 3 u by linarith
    ultimately have "sint (8000 - e) = 4294975296 - uint e"
      by (simp add: sint_u32)
    then show ?thesis using b 3 u by (simp add: tr)
  qed
  then show ?thesis by (simp add: e_def)
qed

lemma timeRemaining_at_settled:
  assumes "uint (now - s) < 2 ^ 31"
  shows "uint (timeRemaining_at s now) = max 0 (8000 - uint (now - s))"
  using assms by (simp add: timeRemaining_at_uint max_def)

lemma timeRemaining_at_mono:
  assumes "uint (now1 - s) \<le> uint (now2 - s)" "uint (now2 - s) < 2 ^ 31"
  shows "timeRemaining_at s now2 \<le> timeRemaining_at s now1"
proof -
  have "uint (now1 - s) < 2 ^ 31"
    using assms by simp
  then have "uint (timeRemaining_at s now1) = max 0 (8000 - uint (now1 - s))"
    by (rule timeRemaining_at_settled)
  moreover have "uint (timeRemaining_at s now2) = max 0 (8000 - uint (now2 - s))"
    using assms(2) by (rule timeRemaining_at_settled)
  ultimately show ?thesis
    using assms(1) by (simp add: word_le_def)
qed

section \<open>The queued-read tracker\<close>

lemmas prim_defs = emit_def micros_def delayMicroseconds_def delay_def spiBusWriteRegister_def
  spiBusReadRegisterBuffer_def i2cRead_def i2cWrite_def spiWriteRegisterDelay_def

lemma timeRemaining_idle:
  "\<not> waiting (queuedRead m) \<Longrightarrow> ak8963SensorQueuedReadTimeRemaining m = (0, m)"
  by (simp add: ak8963SensorQueuedReadTimeRemaining_def)

lemma timeRemaining_pending:
  "waiting (queuedRead m) \<Longrightarrow>
   ak8963SensorQueuedReadTimeRemaining m =
     (timeRemaining_at (readStartedAt (queuedRead m)) (clock m 0), m\<lparr>clock := clock m \<circ> Suc\<rparr>)"
  by (simp add: ak8963SensorQueuedReadTimeRemaining_def micros_def comp_def)

lemma timeRemaining_queuedRead [simp]:
  "queuedRead (snd (ak8963SensorQueuedReadTimeRemaining m)) = queuedRead m"
  by (cases "waiting (queuedRead m)") (simp_all add: timeRemaining_idle timeRemaining_pending)

lemma completeRead_eq:
  "ak8963SensorCompleteRead buf m =
     (True, fill (snd (bus m 0)) (len (queuedRead m)) buf,
      (snd (ak8963SensorQueuedReadTimeRemaining m))
        \<lparr>queuedRead := (queuedRead m)\<lparr>waiting := False\<rparr>,
         trace := trace m
           @ (if fst (ak8963SensorQueuedReadTimeRemaining m) > 0
              then [DelayUs (fst (ak8963SensorQueuedReadTimeRemaining m))] else [])
           @ [SpiReadBuf MPU_RA_EXT_SENS_DATA_00 (len (queuedRead m))],
         bus := bus m \<circ> Suc\<rparr>)"
  by (cases "waiting (queuedRead m)")
     (simp_all add: ak8963SensorCompleteRead_def timeRemaining_idle timeRemaining_pending
        prim_defs Let_def comp_def)

text \<open>
  C3. While a read is pending (\<open>waiting\<close> is true), \<open>ak8963SensorStartRead\<close> returns false
  and leaves the machine as it was: \<open>waiting\<close>, \<open>len\<close> and \<open>readStartedAt\<close> are unchanged
  and no transport write is issued (the trace of calls is the same).
\<close>

theorem startRead_while_pending:
  "waiting (queuedRead m) \<Longrightarrow>
   ak8963SensorStartRead addr reg n m = (False, m)
   \<and> queuedRead (snd (ak8963SensorStartRead addr reg n m)) = queuedRead m
   \<and> trace (snd (ak8963SensorStartRead addr reg n m)) = trace m"
  by (simp add: ak8963SensorStartRead_def)

theorem startRead_while_pending_witness:
  "waiting (queuedRead status_due)
   \<and> ak8963SensorStartRead AK8963_MAG_I2C_ADDRESS AK8963_MAG_REG_HXL 7 status_due
       = (False, status_due)
   \<and> len (queuedRead (snd (ak8963SensorStartRead AK8963_MAG_I2C_ADDRESS AK8963_MAG_REG_HXL 7
        status_due))) = 1
   \<and> trace (snd (ak8963SensorStartRead AK8963_MAG_I2C_ADDRESS AK8963_MAG_REG_HXL 7
        status_due)) = []"
proof -
  have w: "waiting (queuedRead status_due)"
    by (simp add: status_due_def)
  have "len (queuedRead status_due) = 1" "trace status_due = []"
    by (simp_all add: status_due_def)
  with w startRead_while_pending [OF w, of AK8963_MAG_I2C_ADDRESS AK8963_MAG_REG_HXL 7]
  show ?thesis by simp
qed

text \<open>
  C5, amended. \<open>ak8963SensorQueuedReadTimeRemaining\<close> returns 0 when no read is pending.
  When a read is pending and fewer than \<open>2 ^ 31\<close> microseconds have passed on the 32-bit
  clock since it was queued, it returns \<open>max 0 (8000 - elapsed)\<close>, hence 0 from 8000
  microseconds on; and of two successive calls with no read started in between, the later
  one, if still within those \<open>2 ^ 31\<close> microseconds, returns no more than the earlier one.
\<close>

theorem timeRemaining_settles:
  "(\<not> waiting (queuedRead m) \<longrightarrow> fst (ak8963SensorQueuedReadTimeRemaining m) = 0)
   \<and> (waiting (queuedRead m)
        \<and> uint (clock m 0 - readStartedAt (queuedRead m)) < 2 ^ 31 \<longrightarrow>
      uint (fst (ak8963SensorQueuedReadTimeRemaining m))
        = max 0 (8000 - uint (clock m 0 - readStartedAt (queuedRead m))))
   \<and> (waiting (queuedRead m)
        \<and> uint (clock m 0 - readStartedAt (queuedRead m))
            \<le> uint (clock m 1 - readStartedAt (queuedRead m))
        \<and> uint (clock m 1 - readStartedAt (queuedRead m)) < 2 ^ 31 \<longrightarrow>
      fst (ak8963SensorQueuedReadTimeRemaining (snd (ak8963SensorQueuedReadTimeRemaining m)))
        \<le> fst (ak8963SensorQueuedReadTimeRemaining m))"
  by (auto simp: timeRemaining_idle timeRemaining_pending timeRemaining_at_settled
      intro: timeRemaining_at_mono)

theorem timeRemaining_settles_witness:
  "fst (ak8963SensorQueuedReadTimeRemaining fresh) = 0
   \<and> uint (fst (ak8963SensorQueuedReadTimeRemaining status_due)) = 0
   \<and> fst (ak8963SensorQueuedReadTimeRemaining
        (snd (ak8963SensorQueuedReadTimeRemaining status_due)))
      \<le> fst (ak8963SensorQueuedReadTimeRemaining status_due)"
proof -
  have idle: "\<not> waiting (queuedRead fresh)"
    by (simp add: fresh_def boot_def)
  have pending: "waiting (queuedRead status_due)
      \<and> uint (clock status_due 0 - readStartedAt (queuedRead status_due)) < 2 ^ 31"
    by (simp add: status_due_def always_def)
  have later: "waiting (queuedRead status_due)
      \<and> uint (clock status_due 0 - readStartedAt (queuedRead status_due))
          \<le> uint (clock status_due 1 - readStartedAt (queuedRead status_due))
      \<and> uint (clock status_due 1 - readStartedAt (queuedRead status_due)) < 2 ^ 31"
    by (simp add: status_due_def always_def)
  have e: "uint (clock status_due 0 - readStartedAt (queuedRead status_due)) = 8000"
    by (simp add: status_due_def always_def)
  show ?thesis
    using timeRemaining_settles [of fresh] timeRemaining_settles [of status_due]
      idle pending later e
    by simp
qed

theorem timeRemaining_wraps:
  "waiting (queuedRead stale_later)
   \<and> clock stale_later 0 = 8000 \<and> clock stale_later 1 = 4294967295
   \<and> readStartedAt (queuedRead stale_later) = 0
   \<and> fst (ak8963SensorQueuedReadTimeRemaining stale_later) = 0
   \<and> fst (ak8963SensorQueuedReadTimeRemaining
        (snd (ak8963SensorQueuedReadTimeRemaining stale_later))) = 8001"
  by (simp add: stale_later_def stale_def always_def timeRemaining_pending
      timeRemaining_at_def)

text \<open>
  C4, amended. \<open>ak8963SensorCompleteRead\<close> always returns true. If the time remaining is
  positive it first waits for exactly that time; it leaves \<open>waiting\<close> cleared and
  \<open>len\<close> and \<open>readStartedAt\<close> as they were; its last call is the transport buffer read
  of \<open>len\<close> bytes, which it leaves in the caller's buffer. The wait is at most 8000
  microseconds when fewer than \<open>2 ^ 31\<close> microseconds have passed on the 32-bit clock
  since the read was queued, and there is no wait when no read is pending.
\<close>

theorem completeRead_effect:
  "fst (ak8963SensorCompleteRead buf m) = True
   \<and> fst (snd (ak8963SensorCompleteRead buf m)) = fill (snd (bus m 0)) (len (queuedRead m)) buf
   \<and> queuedRead (snd (snd (ak8963SensorCompleteRead buf m)))
       = (queuedRead m)\<lparr>waiting := False\<rparr>
   \<and> trace (snd (snd (ak8963SensorCompleteRead buf m)))
       = trace m
         @ (if 0 < fst (ak8963SensorQueuedReadTimeRemaining m)
            then [DelayUs (fst (ak8963SensorQueuedReadTimeRemaining m))] else [])
         @ [SpiReadBuf MPU_RA_EXT_SENS_DATA_00 (len (queuedRead m))]
   \<and> (waiting (queuedRead m)
        \<and> uint (clock m 0 - readStartedAt (queuedRead m)) < 2 ^ 31 \<longrightarrow>
      fst (ak8963SensorQueuedReadTimeRemaining m) \<le> 8000)
   \<and> (\<not> waiting (queuedRead m) \<longrightarrow> fst (ak8963SensorQueuedReadTimeRemaining m) = 0)"
proof -
  have "fst (ak8963SensorQueuedReadTimeRemaining m) \<le> 8000"
    if "waiting (queuedRead m)" "uint (clock m 0 - readStartedAt (queuedRead m)) < 2 ^ 31"
  proof -
    have "uint (timeRemaining_at (readStartedAt (queuedRead m)) (clock m 0)) \<le> 8000"
      using that(2) by (simp add: timeRemaining_at_settled)
    then show ?thesis
      using that(1) by (simp add: timeRemaining_pending word_le_def)
  qed
  then show ?thesis
    by (simp add: completeRead_eq timeRemaining_idle)
qed

theorem completeRead_effect_witness:
  "fst (ak8963SensorCompleteRead (always 9) status_early) = True
   \<and> fst (snd (ak8963SensorCompleteRead (always 9) status_early)) 0 = 0
   \<and> fst (snd (ak8963SensorCompleteRead (always 9) status_early)) 1 = 9
   \<and> \<not> waiting (queuedRead (snd (snd (ak8963SensorCompleteRead (always 9) status_early))))
   \<and> trace (snd (snd (ak8963SensorCompleteRead (always 9) status_early)))
       = [DelayUs 5000, SpiReadBuf MPU_RA_EXT_SENS_DATA_00 1]
   \<and> fst (ak8963SensorQueuedReadTimeRemaining status_early) \<le> 8000
   \<and> fst (ak8963SensorQueuedReadTimeRemaining fresh) = 0"
proof -
  have pending: "waiting (queuedRead status_early)
      \<and> uint (clock status_early 0 - readStartedAt (queuedRead status_early)) < 2 ^ 31"
    by (simp add: status_early_def status_due_def always_def)
  have idle: "\<not> waiting (queuedRead fresh)"
    by (simp add: fresh_def boot_def)
  have tr: "fst (ak8963SensorQueuedReadTimeRemaining status_early) = 5000"
    by (simp add: status_early_def status_due_def always_def timeRemaining_pending
        timeRemaining_at_def)
  have fields: "trace status_early = []" "len (queuedRead status_early) = 1"
      "snd (bus status_early 0) = always 0"
    by (simp_all add: status_early_def status_due_def always_def)
  show ?thesis
    using completeRead_effect [of "always 9" status_early] completeRead_effect [of "always 9" fresh]
      pending idle
    by (simp add: tr fields fill_def always_def)
qed

lemma stale_timeRemaining: "fst (ak8963SensorQueuedReadTimeRemaining stale) = 8001"
  by (simp add: stale_def always_def timeRemaining_pending timeRemaining_at_def)

theorem completeRead_long_wait:
  "waiting (queuedRead stale)
   \<and> trace (snd (snd (ak8963SensorCompleteRead (always 0) stale)))
       = [DelayUs 8001, SpiReadBuf MPU_RA_EXT_SENS_DATA_00 7]"
proof -
  have "waiting (queuedRead stale)" "trace stale = []" "len (queuedRead stale) = 7"
    by (simp_all add: stale_def)
  then show ?thesis
    by (simp add: completeRead_eq stale_timeRemaining)
qed

section \<open>One poll of the SPI build, arm by arm\<close>

lemma completeRead_ack: "fst (ak8963SensorCompleteRead buf m)"
  by (simp add: completeRead_eq)

lemma sensorWrite_spi_eq:
  "ak8963SensorWrite_spi addr reg data m =
     (True, m\<lparr>trace := trace m @
        [SpiWrite MPU_RA_I2C_SLV0_ADDR addr, DelayUs 10,
         SpiWrite MPU_RA_I2C_SLV0_REG reg, DelayUs 10,
         SpiWrite MPU_RA_I2C_SLV0_DO data, DelayUs 10,
         SpiWrite MPU_RA_I2C_SLV0_CTRL 0x81, DelayUs 10]\<rparr>)"
  by (simp add: ak8963SensorWrite_spi_def prim_defs Let_def)

lemma startRead_idle:
  "\<not> waiting (queuedRead m) \<Longrightarrow>
   ak8963SensorStartRead addr reg n m =
     (True, m\<lparr>queuedRead := \<lparr>waiting = True, len = n, readStartedAt = clock m 0\<rparr>,
              trace := trace m @
                [SpiWrite MPU_RA_I2C_SLV0_ADDR (addr OR READ_FLAG), DelayUs 10,
                 SpiWrite MPU_RA_I2C_SLV0_REG reg, DelayUs 10,
                 SpiWrite MPU_RA_I2C_SLV0_CTRL (n OR 0x80), DelayUs 10],
              clock := clock m \<circ> Suc\<rparr>)"
  by (simp add: ak8963SensorStartRead_def prim_defs Let_def comp_def)

lemma restart_CHECK_STATUS:
  "state m = CHECK_STATUS \<Longrightarrow>
   ak8963Read_restart retry buf magData m =
     (False, magData,
      (snd (ak8963SensorStartRead AK8963_MAG_I2C_ADDRESS AK8963_MAG_REG_STATUS1 1 m))
        \<lparr>state := WAITING_FOR_STATUS\<rparr>)"
  by (subst ak8963Read_restart.simps) simp

lemma restart_busy:
  assumes "state m \<noteq> CHECK_STATUS" "fst (ak8963SensorQueuedReadTimeRemaining m) \<noteq> 0"
  shows "ak8963Read_restart retry buf magData m =
     (False, magData, snd (ak8963SensorQueuedReadTimeRemaining m))"
proof -
  obtain t m1 where tr: "ak8963SensorQueuedReadTimeRemaining m = (t, m1)"
    by (cases "ak8963SensorQueuedReadTimeRemaining m")
  with assms(2) have "t \<noteq> 0" by simp
  with assms(1) tr show ?thesis
    by (subst ak8963Read_restart.simps) (cases "state m"; simp)
qed

lemma restart_WAITING_FOR_DATA:
  assumes "state m = WAITING_FOR_DATA" "fst (ak8963SensorQueuedReadTimeRemaining m) = 0"
  shows "ak8963Read_restart retry buf magData m =
     (let m1 = snd (ak8963SensorQueuedReadTimeRemaining m);
          buf1 = fst (snd (ak8963SensorCompleteRead buf m1));
          m2 = snd (snd (ak8963SensorCompleteRead buf m1))
      in if buf1 6 AND STATUS2_DATA_ERROR \<noteq> 0 \<or> buf1 6 AND STATUS2_MAG_SENSOR_OVERFLOW \<noteq> 0
         then (False, magData, m2)
         else (True, store_magData buf1 (magGain m2) magData,
               snd (ak8963SensorWrite_spi AK8963_MAG_I2C_ADDRESS AK8963_MAG_REG_CNTL1
                      CNTL1_MODE_ONCE (m2\<lparr>state := CHECK_STATUS\<rparr>))))"
proof -
  obtain t m1 where tr: "ak8963SensorQueuedReadTimeRemaining m = (t, m1)"
    by (cases "ak8963SensorQueuedReadTimeRemaining m")
  with assms(2) have t: "t = 0" by simp
  obtain a buf1 m2 where cr: "ak8963SensorCompleteRead buf m1 = (a, buf1, m2)"
    by (cases "ak8963SensorCompleteRead buf m1")
  with completeRead_ack[of buf m1] have a: "a" by simp
  show ?thesis
    by (subst ak8963Read_restart.simps) (simp add: assms(1) tr t cr a sensorWrite_spi_eq)
qed

lemma restart_WAITING_FOR_STATUS:
  assumes "state m = WAITING_FOR_STATUS" "fst (ak8963SensorQueuedReadTimeRemaining m) = 0"
  shows "ak8963Read_restart retry buf magData m =
     (let m1 = snd (ak8963SensorQueuedReadTimeRemaining m);
          buf1 = fst (snd (ak8963SensorCompleteRead buf m1));
          m2 = snd (snd (ak8963SensorCompleteRead buf m1))
      in if buf1 0 AND STATUS1_DATA_READY = 0
         then if retry then ak8963Read_restart False buf1 magData (m2\<lparr>state := CHECK_STATUS\<rparr>)
              else (False, magData, m2\<lparr>state := CHECK_STATUS\<rparr>)
         else (False, magData,
               (snd (ak8963SensorStartRead AK8963_MAG_I2C_ADDRESS AK8963_MAG_REG_HXL 7 m2))
                 \<lparr>state := WAITING_FOR_DATA\<rparr>))"
proof -
  obtain t m1 where tr: "ak8963SensorQueuedReadTimeRemaining m = (t, m1)"
    by (cases "ak8963SensorQueuedReadTimeRemaining m")
  with assms(2) have t: "t = 0" by simp
  obtain a buf1 m2 where cr: "ak8963SensorCompleteRead buf m1 = (a, buf1, m2)"
    by (cases "ak8963SensorCompleteRead buf m1")
  with completeRead_ack[of buf m1] have a: "a" by simp
  show ?thesis
    by (subst ak8963Read_restart.simps) (simp add: assms(1) tr t cr a)
qed

text \<open>What the poll leaves untouched.\<close>

lemma timeRemaining_frame [simp]:
  "state (snd (ak8963SensorQueuedReadTimeRemaining m)) = state m"
  "magGain (snd (ak8963SensorQueuedReadTimeRemaining m)) = magGain m"
  "trace (snd (ak8963SensorQueuedReadTimeRemaining m)) = trace m"
  "bus (snd (ak8963SensorQueuedReadTimeRemaining m)) = bus m"
  "stack (snd (ak8963SensorQueuedReadTimeRemaining m)) = stack m"
  by (cases "waiting (queuedRead m)", simp_all add: timeRemaining_idle timeRemaining_pending)+

lemma completeRead_frame [simp]:
  "state (snd (snd (ak8963SensorCompleteRead buf m))) = state m"
  "magGain (snd (snd (ak8963SensorCompleteRead buf m))) = magGain m"
  "waiting (queuedRead (snd (snd (ak8963SensorCompleteRead buf m)))) = False"
  by (simp_all add: completeRead_eq)

lemma startRead_pending:
  "waiting (queuedRead m) \<Longrightarrow> ak8963SensorStartRead addr reg n m = (False, m)"
  by (simp add: ak8963SensorStartRead_def)

lemma startRead_frame [simp]:
  "state (snd (ak8963SensorStartRead addr reg n m)) = state m"
  "magGain (snd (ak8963SensorStartRead addr reg n m)) = magGain m"
  by (cases "waiting (queuedRead m)", simp_all add: startRead_idle startRead_pending)+

lemma restart_magGain:
  "magGain (snd (snd (ak8963Read_restart retry buf magData m))) = magGain m"
proof -
  have check: "magGain (snd (snd (ak8963Read_restart r b magData m'))) = magGain m'"
    if "state m' = CHECK_STATUS" for r b m'
    using that by (simp add: restart_CHECK_STATUS)
  show ?thesis
  proof (cases "state m")
    case CHECK_STATUS
    then show ?thesis by (rule check)
  next
    case WAITING_FOR_STATUS
    show ?thesis
    proof (cases "fst (ak8963SensorQueuedReadTimeRemaining m) = 0")
      case True
      show ?thesis
        by (simp add: restart_WAITING_FOR_STATUS [OF WAITING_FOR_STATUS True] Let_def check)
    next
      case False
      with WAITING_FOR_STATUS show ?thesis
        by (simp add: restart_busy)
    qed
  next
    case WAITING_FOR_DATA
    show ?thesis
    proof (cases "fst (ak8963SensorQueuedReadTimeRemaining m) = 0")
      case True
      show ?thesis
        by (simp add: restart_WAITING_FOR_DATA [OF WAITING_FOR_DATA True] Let_def
            sensorWrite_spi_eq)
    next
      case False
      with WAITING_FOR_DATA show ?thesis
        by (simp add: restart_busy)
    qed
  qed
qed


section \<open>Transport acknowledgements in the SPI build\<close>

lemma erase_acks_fields [simp]:
  "queuedRead (erase_acks m) = queuedRead m"
  "state (erase_acks m) = state m"
  "magGain (erase_acks m) = magGain m"
  "trace (erase_acks m) = trace m"
  "clock (erase_acks m) = clock m"
  "stack (erase_acks m) = stack m"
  "snd (bus (erase_acks m) k) = snd (bus m k)"
  by (simp_all add: erase_acks_def ack_all_def)

lemma erase_acks_state_update [simp]:
  "erase_acks (m\<lparr>state := s\<rparr>) = (erase_acks m)\<lparr>state := s\<rparr>"
  by (simp add: erase_acks_def)

lemma timeRemaining_erase:
  "ak8963SensorQueuedReadTimeRemaining (erase_acks m) =
     (fst (ak8963SensorQueuedReadTimeRemaining m),
      erase_acks (snd (ak8963SensorQueuedReadTimeRemaining m)))"
  by (cases "waiting (queuedRead m)")
     (simp_all add: timeRemaining_idle timeRemaining_pending, simp add: erase_acks_def)

lemma completeRead_erase:
  "ak8963SensorCompleteRead buf (erase_acks m) =
     (True, fst (snd (ak8963SensorCompleteRead buf m)),
      erase_acks (snd (snd (ak8963SensorCompleteRead buf m))))"
  by (cases "waiting (queuedRead m)")
     (simp_all add: completeRead_eq timeRemaining_idle timeRemaining_pending,
      simp_all add: erase_acks_def comp_def)

lemma startRead_erase:
  "ak8963SensorStartRead addr reg n (erase_acks m) =
     (fst (ak8963SensorStartRead addr reg n m),
      erase_acks (snd (ak8963SensorStartRead addr reg n m)))"
  by (cases "waiting (queuedRead m)")
     (simp_all add: startRead_idle startRead_pending, simp add: erase_acks_def)

lemma sensorWrite_spi_erase:
  "ak8963SensorWrite_spi addr reg data (erase_acks m) =
     (True, erase_acks (snd (ak8963SensorWrite_spi addr reg data m)))"
  by (simp add: sensorWrite_spi_eq) (simp add: erase_acks_def)

lemma restart_erase:
  "ak8963Read_restart retry buf magData (erase_acks m) =
     (fst (ak8963Read_restart retry buf magData m),
      fst (snd (ak8963Read_restart retry buf magData m)),
      erase_acks (snd (snd (ak8963Read_restart retry buf magData m))))"
proof -
  have check: "ak8963Read_restart r b magData (erase_acks m') =
     (fst (ak8963Read_restart r b magData m'),
      fst (snd (ak8963Read_restart r b magData m')),
      erase_acks (snd (snd (ak8963Read_restart r b magData m'))))"
    if "state m' = CHECK_STATUS" for r b m'
    using that by (simp add: restart_CHECK_STATUS startRead_erase)
  show ?thesis
  proof (cases "state m")
    case CHECK_STATUS
    then show ?thesis by (rule check)
  next
    case WAITING_FOR_STATUS
    then have st: "state (erase_acks m) = WAITING_FOR_STATUS" by simp
    show ?thesis
    proof (cases "fst (ak8963SensorQueuedReadTimeRemaining m) = 0")
      case True
      then have t: "fst (ak8963SensorQueuedReadTimeRemaining (erase_acks m)) = 0"
        by (simp add: timeRemaining_erase)
      show ?thesis
        using check
        by (simp add: restart_WAITING_FOR_STATUS [OF WAITING_FOR_STATUS True]
            restart_WAITING_FOR_STATUS [OF st t] Let_def timeRemaining_erase
            completeRead_erase startRead_erase
            flip: erase_acks_state_update)
    next
      case False
      then have t: "fst (ak8963SensorQueuedReadTimeRemaining (erase_acks m)) \<noteq> 0"
        by (simp add: timeRemaining_erase)
      from WAITING_FOR_STATUS st False t show ?thesis
        by (simp add: restart_busy timeRemaining_erase)
    qed
  next
    case WAITING_FOR_DATA
    then have st: "state (erase_acks m) = WAITING_FOR_DATA" by simp
    show ?thesis
    proof (cases "fst (ak8963SensorQueuedReadTimeRemaining m) = 0")
      case True
      then have t: "fst (ak8963SensorQueuedReadTimeRemaining (erase_acks m)) = 0"
        by (simp add: timeRemaining_erase)
      show ?thesis
        by (simp add: restart_WAITING_FOR_DATA [OF WAITING_FOR_DATA True]
            restart_WAITING_FOR_DATA [OF st t] Let_def timeRemaining_erase
            completeRead_erase sensorWrite_spi_erase
            flip: erase_acks_state_update)
    next
      case False
      then have t: "fst (ak8963SensorQueuedReadTimeRemaining (erase_acks m)) \<noteq> 0"
        by (simp add: timeRemaining_erase)
      from WAITING_FOR_DATA st False t show ?thesis
        by (simp add: restart_busy timeRemaining_erase)
    qed
  qed
qed


section \<open>The poll that completes a read\<close>

lemma completeRead_after_timeRemaining:
  "fst (snd (ak8963SensorCompleteRead buf (snd (ak8963SensorQueuedReadTimeRemaining m))))
     = fill (snd (bus m 0)) (len (queuedRead m)) buf"
  by (simp add: completeRead_eq)

lemma poll_data:
  assumes "state m = WAITING_FOR_DATA" "fst (ak8963SensorQueuedReadTimeRemaining m) = 0"
  shows "ak8963Read_spi magData m =
     (let buf1 = fill (snd (bus m 0)) (len (queuedRead m)) (stack m);
          m2 = snd (snd (ak8963SensorCompleteRead (stack m)
                 (snd (ak8963SensorQueuedReadTimeRemaining m))))
      in if buf1 6 AND STATUS2_DATA_ERROR \<noteq> 0 \<or> buf1 6 AND STATUS2_MAG_SENSOR_OVERFLOW \<noteq> 0
         then (False, magData, m2)
         else (True, store_magData buf1 (magGain m) magData,
               snd (ak8963SensorWrite_spi AK8963_MAG_I2C_ADDRESS AK8963_MAG_REG_CNTL1
                      CNTL1_MODE_ONCE (m2\<lparr>state := CHECK_STATUS\<rparr>))))"
  by (simp add: ak8963Read_spi_def restart_WAITING_FOR_DATA [OF assms] Let_def
      completeRead_after_timeRemaining)


subsection \<open>The goto of the poll\<close>














text \<open>
  C9. \<open>ak8963SensorCompleteRead\<close> returns true for every buffer and every machine, whatever
  the transport answers, so in the SPI build the \<open>!ack\<close> test after the 7-byte data fetch
  never fires: a poll that completes the data fetch with a clean status2 reports new data
  even when the transport did not acknowledge, and replacing every coming acknowledgement
  by a positive one changes neither the returned flag, nor the samples, nor the machine
  the poll leaves behind (other than the acknowledgements still to come).
\<close>

theorem nack_never_detected:
  "fst (ak8963SensorCompleteRead buf m) = True
   \<and> (state m = WAITING_FOR_DATA \<and> fst (ak8963SensorQueuedReadTimeRemaining m) = 0
        \<and> \<not> fst (bus m 0)
        \<and> fill (snd (bus m 0)) (len (queuedRead m)) (stack m) 6 AND STATUS2_DATA_ERROR = 0
        \<and> fill (snd (bus m 0)) (len (queuedRead m)) (stack m) 6
              AND STATUS2_MAG_SENSOR_OVERFLOW = 0 \<longrightarrow>
      fst (ak8963Read_spi magData m) = True)
   \<and> fst (ak8963Read_spi magData (erase_acks m)) = fst (ak8963Read_spi magData m)
   \<and> fst (snd (ak8963Read_spi magData (erase_acks m))) = fst (snd (ak8963Read_spi magData m))
   \<and> snd (snd (ak8963Read_spi magData (erase_acks m)))
       = erase_acks (snd (snd (ak8963Read_spi magData m)))"
proof -
  have "ak8963Read_spi magData (erase_acks m) =
     (fst (ak8963Read_spi magData m), fst (snd (ak8963Read_spi magData m)),
      erase_acks (snd (snd (ak8963Read_spi magData m))))"
    using restart_erase [of True "stack m" magData m] by (simp add: ak8963Read_spi_def)
  then show ?thesis
    by (simp add: completeRead_eq poll_data Let_def)
qed

lemma data_due_timeRemaining: "fst (ak8963SensorQueuedReadTimeRemaining data_due) = 0"
  by (simp add: data_due_def always_def timeRemaining_pending timeRemaining_at_def)

theorem nack_never_detected_witness:
  "state data_due = WAITING_FOR_DATA
   \<and> fst (ak8963SensorQueuedReadTimeRemaining data_due) = 0
   \<and> fst (bus data_due 0) = False
   \<and> fst (ak8963SensorCompleteRead (always 0) data_due) = True
   \<and> fst (ak8963Read_spi (always 0) data_due) = True
   \<and> fst (ak8963Read_spi (always 0) (erase_acks data_due)) = True"
proof -
  have h: "state data_due = WAITING_FOR_DATA"
      "fst (ak8963SensorQueuedReadTimeRemaining data_due) = 0"
      "\<not> fst (bus data_due 0)"
    by (simp_all add: data_due_timeRemaining) (simp_all add: data_due_def always_def)
  have clean:
      "fill (snd (bus data_due 0)) (len (queuedRead data_due)) (stack data_due) 6
         AND STATUS2_DATA_ERROR = 0"
      "fill (snd (bus data_due 0)) (len (queuedRead data_due)) (stack data_due) 6
         AND STATUS2_MAG_SENSOR_OVERFLOW = 0"
    by (simp_all add: data_due_def always_def fill_def sample_bytes_def bytes_of_def)
  show ?thesis
    using nack_never_detected [of "always 0" data_due "always 0"] h clean
    by simp
qed

lemma data_fault_timeRemaining: "fst (ak8963SensorQueuedReadTimeRemaining data_fault) = 0"
  by (simp add: data_fault_def always_def timeRemaining_pending timeRemaining_at_def)

lemma fault_leaves_state:
  assumes "state m = WAITING_FOR_DATA" "fst (ak8963SensorQueuedReadTimeRemaining m) = 0"
    and "fill (snd (bus m 0)) (len (queuedRead m)) (stack m) 6 AND STATUS2_DATA_ERROR \<noteq> 0
       \<or> fill (snd (bus m 0)) (len (queuedRead m)) (stack m) 6 AND STATUS2_MAG_SENSOR_OVERFLOW \<noteq> 0"
  shows "ak8963Read_spi magData m =
     (False, magData,
      snd (snd (ak8963SensorCompleteRead (stack m) (snd (ak8963SensorQueuedReadTimeRemaining m)))))"
  using assms(3) by (simp add: poll_data [OF assms(1,2)] Let_def)

text \<open>
  C2, which the code does not meet. The claim asks that a poll completing the 7-byte data
  read with a fault in status2 return no data, reset the state to \<open>CHECK_STATUS\<close> and
  issue exactly one re-arm write. On the code such a poll returns no data before the state
  is reset and before the sensor is re-armed: the state stays \<open>WAITING_FOR_DATA\<close> and
  the only transport call is the buffer read. The next poll finds no read pending, reads
  the same buffer again, and ends the same way.
\<close>

theorem fault_poll_stalls:
  "fst (ak8963Read_spi (always 0) data_fault) = False
   \<and> state (snd (snd (ak8963Read_spi (always 0) data_fault))) = WAITING_FOR_DATA
   \<and> trace (snd (snd (ak8963Read_spi (always 0) data_fault)))
       = [SpiReadBuf MPU_RA_EXT_SENS_DATA_00 7]
   \<and> fst (ak8963Read_spi (always 0) (snd (snd (ak8963Read_spi (always 0) data_fault)))) = False
   \<and> state (snd (snd (ak8963Read_spi (always 0)
        (snd (snd (ak8963Read_spi (always 0) data_fault)))))) = WAITING_FOR_DATA
   \<and> trace (snd (snd (ak8963Read_spi (always 0)
        (snd (snd (ak8963Read_spi (always 0) data_fault))))))
       = [SpiReadBuf MPU_RA_EXT_SENS_DATA_00 7, SpiReadBuf MPU_RA_EXT_SENS_DATA_00 7]"
proof -
  define m1 where "m1 = snd (snd (ak8963SensorCompleteRead (stack data_fault)
      (snd (ak8963SensorQueuedReadTimeRemaining data_fault))))"
  have st: "state data_fault = WAITING_FOR_DATA"
    by (simp add: data_fault_def)
  have bad: "fill (snd (bus data_fault 0)) (len (queuedRead data_fault)) (stack data_fault) 6
      AND STATUS2_DATA_ERROR \<noteq> 0"
    by (simp add: data_fault_def always_def fill_def fault_bytes_def bytes_of_def
        STATUS2_DATA_ERROR_def)
  have first: "ak8963Read_spi (always 0) data_fault = (False, always 0, m1)"
    using bad by (simp add: fault_leaves_state [OF st data_fault_timeRemaining] m1_def)
  have f1: "state m1 = WAITING_FOR_DATA" "\<not> waiting (queuedRead m1)"
      "len (queuedRead m1) = 7" "stack m1 = always 0" "snd (bus m1 0) = fault_bytes"
      "trace m1 = [SpiReadBuf MPU_RA_EXT_SENS_DATA_00 7]"
    by (simp_all add: m1_def completeRead_eq data_fault_timeRemaining)
       (simp_all add: data_fault_def always_def timeRemaining_pending timeRemaining_at_def)
  have t1: "fst (ak8963SensorQueuedReadTimeRemaining m1) = 0"
    using f1(2) by (simp add: timeRemaining_idle)
  have bad1: "fill (snd (bus m1 0)) (len (queuedRead m1)) (stack m1) 6
      AND STATUS2_DATA_ERROR \<noteq> 0"
    by (simp add: f1 always_def fill_def fault_bytes_def bytes_of_def STATUS2_DATA_ERROR_def)
  have second: "ak8963Read_spi (always 0) m1 =
      (False, always 0, snd (snd (ak8963SensorCompleteRead (stack m1)
         (snd (ak8963SensorQueuedReadTimeRemaining m1)))))"
    using bad1 by (simp add: fault_leaves_state [OF f1(1) t1])
  show ?thesis
    by (simp add: first second f1) (simp add: completeRead_eq timeRemaining_idle f1)
qed

text \<open>
  C8. \<open>ak8963Init\<close> returns true in both builds, for every machine: whatever the transport
  will answer to its writes and reads, acknowledged or not.
\<close>

theorem init_returns_true:
  "fst (ak8963Init_spi m) = True \<and> fst (ak8963Init_i2c m) = True"
  by (simp add: ak8963Init_spi_def ak8963Init_i2c_def ak8963Init_def Let_def
      split: prod.splits)

theorem init_returns_true_witness:
  "fst (bus fresh 0) = False \<and> wack fresh 0 = False
   \<and> fst (ak8963Init_spi fresh) = True \<and> fst (ak8963Init_i2c fresh) = True"
proof -
  have "fst (bus fresh 0) = False" "wack fresh 0 = False"
    by (simp_all add: fresh_def boot_def always_def)
  then show ?thesis
    using init_returns_true [of fresh] by simp
qed

section \<open>Single precision is exact on the driver's values\<close>

lemma rnd_even_of_int: "rnd_even (of_int z) = z"
  by (simp add: rnd_even_def)

lemma scale2_pos: "0 < scale2 e"
  by (simp add: scale2_def)

lemma f32_ulp_exp_le:
  assumes "0 < a" "a < 2 ^ 16"
  shows "f32_ulp_exp a \<le> - 8"
proof (cases "1 \<le> a")
  case True
  have "\<lfloor>a\<rfloor> < 2 ^ 16"
    using assms(2) by (simp add: floor_less_iff)
  then have "bitlen \<lfloor>a\<rfloor> \<le> 16"
    by (simp add: bitlen_le_iff_power)
  with True show ?thesis
    by (simp add: f32_ulp_exp_def)
next
  case False
  have "0 \<le> bitlen (\<lceil>1 / a\<rceil> - 1)"
    by (rule bitlen_nonneg)
  with False show ?thesis
    by (simp add: f32_ulp_exp_def)
qed

lemma scale2_divides:
  assumes "e \<le> - 8"
  shows "\<exists>z::int. of_int n / 256 / scale2 e = of_int z"
proof -
  define k where "k = nat (- e) - 8"
  have k: "nat (- e) = 8 + k"
    using assms by (simp add: k_def)
  have "of_int n / 256 / scale2 e = (of_int n :: rat) * 2 ^ k"
    using assms by (simp add: scale2_def k power_add)
  also have "\<dots> = of_int (n * 2 ^ k)"
    by simp
  finally show ?thesis ..
qed

text \<open>A multiple of \<open>1 / 256\<close> with a numerator below \<open>2 ^ 24\<close> is a \<open>float\<close>.\<close>

lemma f32_round_exact:
  assumes "\<bar>n\<bar> < 2 ^ 24"
  shows "f32_round (of_int n / 256) = of_int n / 256"
proof (cases "n = 0")
  case True
  then show ?thesis by (simp add: f32_round_def)
next
  case False
  define q :: rat where "q = of_int n / 256"
  have q0: "q \<noteq> 0" using False by (simp add: q_def)
  have absq: "\<bar>q\<bar> = of_int \<bar>n\<bar> / 256" by (simp add: q_def)
  have "of_int \<bar>n\<bar> < (2 ^ 24 :: rat)"
    using assms by (metis of_int_less_iff of_int_numeral of_int_power)
  then have "\<bar>q\<bar> < 2 ^ 16" by (simp add: absq)
  moreover have "0 < \<bar>q\<bar>" using q0 by simp
  ultimately have e: "f32_ulp_exp \<bar>q\<bar> \<le> - 8"
    by (rule f32_ulp_exp_le[rotated])
  define u where "u = scale2 (f32_ulp_exp \<bar>q\<bar>)"
  obtain z :: int where z: "\<bar>q\<bar> / u = of_int z"
    using scale2_divides[OF e, of "\<bar>n\<bar>"] unfolding absq u_def by blast
  have upos: "0 < u" by (simp add: u_def scale2_pos)
  have "f32_round q = sgn q * of_int (rnd_even (\<bar>q\<bar> / u)) * u"
    using q0 by (simp add: f32_round_def u_def Let_def)
  also have "\<dots> = sgn q * (\<bar>q\<bar> / u) * u"
    by (simp add: z rnd_even_of_int)
  also have "\<dots> = sgn q * \<bar>q\<bar>"
    using upos by simp
  also have "\<dots> = q"
    by (simp add: mult.commute abs_mult_sgn)
  finally show ?thesis by (simp add: q_def)
qed

lemma f32_round_int:
  assumes "\<bar>i\<bar> < 2 ^ 16"
  shows "f32_round (of_int i) = of_int i"
proof -
  have "\<bar>i * 256\<bar> < 2 ^ 24"
    using assms by (simp add: abs_mult)
  then have "f32_round (of_int (i * 256) / 256) = of_int (i * 256) / 256"
    by (rule f32_round_exact)
  then show ?thesis by simp
qed

lemma f32_of_int_exact: "\<bar>i\<bar> < 2 ^ 16 \<Longrightarrow> f32_of_int i = of_int i"
  by (simp add: f32_of_int_def f32_round_int)

lemma sint_u8_range: "- 128 \<le> sint (c :: u8)" "sint c \<le> 127"
  using sint_ge [of c] sint_lt [of c] by simp_all

lemma gain_of_trim_eq: "gain_of_trim c = gain_formula (sint c)"
proof -
  define s where "s = sint c"
  have r: "- 128 \<le> s" "s \<le> 127"
    by (simp_all add: s_def sint_u8_range)
  have a: "f32_of_int s = of_int s"
    using r by (intro f32_of_int_exact) simp
  have lits: "f32_of_int 128 = 128" "f32_of_int 256 = 256" "f32_of_int 1 = 1"
      "f32_of_int 30 = 30"
    using f32_of_int_exact [of 128] f32_of_int_exact [of 256] f32_of_int_exact [of 1]
      f32_of_int_exact [of 30] by simp_all
  have b: "f32_sub (of_int s) 128 = of_int (s - 128)"
  proof -
    have "f32_round (of_int (s - 128)) = of_int (s - 128)"
      by (rule f32_round_int) (use r in simp)
    then show ?thesis by (simp add: f32_sub_def)
  qed
  have c: "f32_div (of_int (s - 128)) 256 = of_int (s - 128) / 256"
    unfolding f32_div_def by (rule f32_round_exact) (use r in simp)
  have d: "f32_add (of_int (s - 128) / 256) 1 = of_int (s + 128) / 256"
  proof -
    have "of_int (s - 128) / 256 + 1 = (of_int (s + 128) / 256 :: rat)"
      by (simp add: field_simps)
    moreover have "f32_round (of_int (s + 128) / 256) = of_int (s + 128) / 256"
      by (rule f32_round_exact) (use r in simp)
    ultimately show ?thesis by (simp only: f32_add_def)
  qed
  have e: "f32_mul (of_int (s + 128) / 256) 30 = of_int (30 * (s + 128)) / 256"
  proof -
    have "of_int (s + 128) / 256 * 30 = (of_int (30 * (s + 128)) / 256 :: rat)"
      by (simp add: field_simps)
    moreover have "f32_round (of_int (30 * (s + 128)) / 256) = of_int (30 * (s + 128)) / 256"
      by (rule f32_round_exact) (use r in simp)
    ultimately show ?thesis by (simp only: f32_mul_def)
  qed
  have "gain_of_trim c = of_int (30 * (s + 128)) / 256"
    by (simp only: gain_of_trim_def s_def [symmetric] a lits b c d e)
  also have "\<dots> = gain_formula s"
    by (simp add: gain_formula_def field_simps)
  finally show ?thesis by (simp add: s_def)
qed

lemma gain_formula_ok: "- 128 \<le> s \<Longrightarrow> s \<le> 127 \<Longrightarrow> gain_ok (gain_formula s)"
  unfolding gain_ok_def
  by (rule exI [of _ "30 * (s + 128)"]) (simp add: gain_formula_def field_simps)

lemma gain_one_ok: "gain_ok 1"
  unfolding gain_ok_def by (rule exI [of _ 256]) simp

subsection \<open>The rounding is to 24 significant bits\<close>

lemma scale2_powi: "scale2 e = 2 powi e"
proof (cases "0 \<le> e")
  case True
  then show ?thesis
    by (simp add: scale2_def power_int_def)
next
  case False
  have "1 / 2 ^ nat (- e) = (inverse 2 :: rat) ^ nat (- e)"
    by (simp only: inverse_eq_divide power_one_over)
  with False show ?thesis
    by (simp only: scale2_def power_int_def if_False)
qed

lemma scale2_add: "scale2 (d + e) = scale2 d * scale2 e"
  by (simp add: scale2_powi power_int_add)

text \<open>
  Above the subnormal range the significand has 24 bits: \<open>a\<close> lies between \<open>2 ^ 23\<close> and
  \<open>2 ^ 24\<close> units of the last place.
\<close>

lemma f32_ulp_exp_normal:
  assumes "0 < a" "- 149 < f32_ulp_exp a"
  shows "2 ^ 23 * scale2 (f32_ulp_exp a) \<le> a \<and> a < 2 ^ 24 * scale2 (f32_ulp_exp a)"
proof (cases "1 \<le> a")
  case True
  define n where "n = \<lfloor>a\<rfloor>"
  define L where "L = bitlen n"
  have n: "1 \<le> n" "of_int n \<le> a" "a < of_int n + 1"
    using True floor_correct [of a] by (simp_all add: n_def le_floor_iff)
  then have "0 < n" by simp
  from bitlen_bounds [OF this] have b: "2 ^ nat (L - 1) \<le> n" "n < 2 ^ nat L"
    by (simp_all add: L_def)
  have L: "1 \<le> L"
    using \<open>0 < n\<close> bitlen_eq_zero_iff [of n] bitlen_nonneg [of n] by (simp add: L_def)
  have e: "f32_ulp_exp a = L - 24"
    using assms(2) True by (simp add: f32_ulp_exp_def L_def n_def)
  have "2 ^ 23 * scale2 (L - 24) = scale2 23 * scale2 (L - 24)"
    by (simp add: scale2_def)
  also have "\<dots> = scale2 (L - 1)"
    by (simp flip: scale2_add)
  also have "\<dots> = 2 ^ nat (L - 1)"
    using L by (simp add: scale2_def)
  also have "\<dots> \<le> of_int n"
    using b(1) by simp
  also note n(2)
  finally have lower: "2 ^ 23 * scale2 (L - 24) \<le> a" .
  have "n + 1 \<le> 2 ^ nat L"
    using b(2) by simp
  then have "of_int (n + 1) \<le> (2 ^ nat L :: rat)"
    by (simp only: of_int_le_numeral_power_cancel_iff)
  then have "of_int n + 1 \<le> (2 ^ nat L :: rat)"
    by simp
  with n(3) have "a < 2 ^ nat L"
    by (rule less_le_trans)
  also have "(2 ^ nat L :: rat) = scale2 L"
    using L by (simp add: scale2_def)
  also have "\<dots> = scale2 24 * scale2 (L - 24)"
    by (simp flip: scale2_add)
  also have "\<dots> = 2 ^ 24 * scale2 (L - 24)"
    by (simp add: scale2_def)
  finally show ?thesis
    using lower by (simp add: e)
next
  case False
  define c where "c = \<lceil>1 / a\<rceil>"
  define K where "K = bitlen (c - 1)"
  have x: "1 < 1 / a"
    using False assms(1) by simp
  have c: "2 \<le> c" "1 / a \<le> of_int c" "of_int c - 1 < 1 / a"
  proof -
    show "1 / a \<le> of_int c" "of_int c - 1 < 1 / a"
      using ceiling_correct [of "1 / a"] by (simp_all add: c_def)
    have "1 < c"
      using x by (simp add: c_def less_ceiling_iff)
    then show "2 \<le> c" by simp
  qed
  then have "0 < c - 1" by simp
  from bitlen_bounds [OF this] have b: "2 ^ nat (K - 1) \<le> c - 1" "c - 1 < 2 ^ nat K"
    by (simp_all add: K_def)
  have K: "1 \<le> K"
    using \<open>0 < c - 1\<close> bitlen_eq_zero_iff [of "c - 1"] bitlen_nonneg [of "c - 1"]
    by (simp add: K_def)
  have e: "f32_ulp_exp a = - K - 23"
    using assms(2) False by (simp add: f32_ulp_exp_def K_def c_def)
  have "c \<le> 2 ^ nat K"
    using b(2) by simp
  then have "of_int c \<le> (2 ^ nat K :: rat)"
    by simp
  with c(2) have "1 / a \<le> 2 ^ nat K"
    by (rule order_trans)
  then have "1 \<le> a * 2 ^ nat K"
    using assms(1) by (simp add: field_simps)
  then have lowK: "1 / 2 ^ nat K \<le> a"
    by (simp add: field_simps)
  have "(2 ^ nat (K - 1) :: rat) \<le> of_int (c - 1)"
    using b(1) by (simp only: numeral_power_le_of_int_cancel_iff)
  also have "(of_int (c - 1) :: rat) = of_int c - 1"
    by simp
  also note c(3)
  finally have "2 ^ nat (K - 1) < 1 / a" .
  then have "a * 2 ^ nat (K - 1) < 1"
    using assms(1) by (simp add: field_simps)
  then have hiK: "a < 1 / 2 ^ nat (K - 1)"
    by (simp add: field_simps)
  have "2 ^ 23 * scale2 (- K - 23) = scale2 23 * scale2 (- K - 23)"
    by (simp add: scale2_def)
  also have "\<dots> = scale2 (- K)"
    by (simp flip: scale2_add)
  also have "\<dots> = 1 / 2 ^ nat K"
    using K by (simp add: scale2_def)
  finally have lower: "2 ^ 23 * scale2 (- K - 23) \<le> a"
    using lowK by simp
  have "1 / 2 ^ nat (K - 1) = scale2 (1 - K)"
    using K by (auto simp: scale2_def)
  also have "\<dots> = scale2 24 * scale2 (- K - 23)"
    by (simp flip: scale2_add)
  also have "\<dots> = 2 ^ 24 * scale2 (- K - 23)"
    by (simp add: scale2_def)
  finally show ?thesis
    using lower hiK by (simp add: e)
qed

lemma f32_round_examples:
  "f32_round (1 / 10) = 13421773 / 134217728"
  "f32_round 16777217 = 16777216"
  "f32_round 16777219 = 16777220"
  "f32_round (- 5 / 256) = - 5 / 256"
  by code_simp+

section \<open>Decoding a register pair\<close>

lemma raw16_cat: "raw16 hi lo = word_cat hi lo"
  unfolding raw16_def
  by (rule bit_word_eqI) (auto simp: bit_simps dest: bit_imp_le_length)

lemma uint_ucast_u8: "uint (ucast (b :: u8) :: u16) = uint b"
  by (simp add: uint_up_ucast is_up)

lemma raw16_uint: "uint (raw16 hi lo) = uint lo + 256 * uint hi"
proof -
  have b: "0 \<le> uint hi" "uint hi < 256" "0 \<le> uint lo" "uint lo < 256"
    using uint_lt2p[of hi] uint_lt2p[of lo] by simp_all
  have "raw16 hi lo = (ucast hi :: u16) * 256 + ucast lo"
    by (simp add: raw16_cat word_cat_eq push_bit_eq_mult)
  then have "uint (raw16 hi lo) = (uint hi * 256 + uint lo) mod 65536"
    by (simp add: uint_word_ariths uint_ucast_u8 mod_simps)
  also have "\<dots> = uint hi * 256 + uint lo"
    by (rule mod_pos_pos_trivial) (use b in linarith)+
  finally show ?thesis by simp
qed

lemma sint_i16: "sint (w :: i16) = (if uint w < 2 ^ 15 then uint w else uint w - 2 ^ 16)"
proof -
  have b: "0 \<le> uint w" "uint w < 2 ^ 16"
    using uint_lt2p[of w] by simp_all
  have "sint w = (uint w + 2 ^ 15) mod 2 ^ 16 - 2 ^ 15"
    by (simp add: sint_uint signed_take_bit_eq_take_bit_shift take_bit_eq_mod)
  also have "\<dots> = (if uint w < 2 ^ 15 then uint w else uint w - 2 ^ 16)"
  proof (cases "uint w < 2 ^ 15")
    case True
    then have "(uint w + 2 ^ 15) mod 2 ^ 16 = uint w + 2 ^ 15"
      using b by (intro mod_pos_pos_trivial) simp_all
    with True show ?thesis by simp
  next
    case False
    have "(uint w + 2 ^ 15) mod 2 ^ 16 = (uint w + 2 ^ 15 - 2 ^ 16) mod 2 ^ 16"
      by (metis mod_diff_right_eq mod_self diff_zero)
    also have "\<dots> = uint w + 2 ^ 15 - 2 ^ 16"
      using b False by (intro mod_pos_pos_trivial) simp_all
    finally show ?thesis using False by simp
  qed
  finally show ?thesis .
qed

lemma raw16_sint: "sint (raw16 hi lo) = le_s16 lo hi"
  by (simp add: sint_i16 raw16_uint le_s16_def Let_def)

lemma le_s16_range: "- 32768 \<le> le_s16 lo hi" "le_s16 lo hi \<le> 32767"
  using sint_ge [of "raw16 hi lo"] sint_lt [of "raw16 hi lo"] by (simp_all add: raw16_sint)

lemma scaled_eq: "scaled hi lo gain = sample_of lo hi gain"
proof -
  have "\<bar>- le_s16 lo hi\<bar> < 2 ^ 16"
    using le_s16_range [of lo hi] by simp
  then have "f32_of_int (- le_s16 lo hi) = of_int (- le_s16 lo hi)"
    by (rule f32_of_int_exact)
  then show ?thesis
    by (simp add: scaled_def sample_of_def raw16_sint f32_mul_def)
qed


lemma store_magData_eq:
  "store_magData buf gain magData =
     magData(X := sample_of (buf 0) (buf 1) (gain X),
             Y := sample_of (buf 2) (buf 3) (gain Y),
             Z := sample_of (buf 4) (buf 5) (gain Z))"
  by (simp add: store_magData_def scaled_eq)

text \<open>Within the range of \<open>int16_t\<close> the stored sample is the exact product, truncated.\<close>

lemma sample_of_exact:
  assumes "gain_ok g"
    and "- 32768 \<le> f32_trunc (of_int (- le_s16 lo hi) * g)"
    and "f32_trunc (of_int (- le_s16 lo hi) * g) \<le> 32767"
  shows "sint (sample_of lo hi g) = f32_trunc (of_int (- le_s16 lo hi) * g)"
proof -
  obtain k :: int where k: "g = of_int k / 256"
    using assms(1) by (auto simp: gain_ok_def)
  define v where "v = - le_s16 lo hi"
  define p :: rat where "p = of_int v * g"
  have p: "p = of_int (v * k) / 256"
    by (simp add: p_def k)
  have lo: "- 32769 < p"
  proof (rule ccontr)
    assume "\<not> - 32769 < p"
    then have "p \<le> - 32769" by simp
    then have "32769 \<le> - p" by simp
    then have "32769 \<le> \<lfloor>- p\<rfloor>" by (simp add: le_floor_iff)
    moreover have "p < 0" using \<open>p \<le> - 32769\<close> by simp
    ultimately have "f32_trunc p \<le> - 32769" by (simp add: f32_trunc_def)
    with assms(2) show False by (simp add: p_def v_def)
  qed
  have hi: "p < 32768"
  proof (rule ccontr)
    assume "\<not> p < 32768"
    then have "32768 \<le> p" by simp
    then have "32768 \<le> \<lfloor>p\<rfloor>" by (simp add: le_floor_iff)
    moreover have "\<not> p < 0" using \<open>32768 \<le> p\<close> by simp
    ultimately have "32768 \<le> f32_trunc p" by (simp add: f32_trunc_def)
    with assms(3) show False by (simp add: p_def v_def)
  qed
  have "- 32769 * 256 < (of_int (v * k) :: rat)" "(of_int (v * k) :: rat) < 32768 * 256"
    using lo hi by (simp_all add: p)
  then have "- 8388864 < v * k" "v * k < 8388608"
    by (simp_all flip: of_int_less_iff [where ?'a = rat])
  then have "\<bar>v * k\<bar> < 2 ^ 24" by simp
  then have "f32_round p = p"
    unfolding p by (rule f32_round_exact)
  then have "sample_of lo hi g = word_of_int (f32_trunc p)"
    by (simp add: sample_of_def f2i16_def p_def v_def)
  moreover have "signed_take_bit 15 (f32_trunc p) = f32_trunc p"
    using assms(2,3) by (intro signed_take_bit_int_eq_self) (simp_all add: p_def v_def)
  ultimately show ?thesis
    by (simp add: sint_sbintrunc' p_def v_def)
qed

section \<open>Initialisation and the direct I2C poll\<close>

lemma init_spi_magGain:
  "magGain (snd (ak8963Init_spi m)) =
     (magGain m)(X := gain_of_trim (snd (bus m 0) 0),
                 Y := gain_of_trim (snd (bus m 0) 1),
                 Z := gain_of_trim (snd (bus m 0) 2))"
  by (simp add: ak8963Init_spi_def ak8963Init_def ak8963SensorRead_spi_def sensorWrite_spi_eq
      prim_defs Let_def fill_def X_def Y_def Z_def)

lemma init_i2c_magGain:
  "magGain (snd (ak8963Init_i2c m)) =
     (magGain m)(X := gain_of_trim (snd (bus m 0) 0),
                 Y := gain_of_trim (snd (bus m 0) 1),
                 Z := gain_of_trim (snd (bus m 0) 2))"
  by (simp add: ak8963Init_i2c_def ak8963Init_def ak8963SensorRead_i2c_def
      ak8963SensorWrite_i2c_def prim_defs Let_def fill_def X_def Y_def Z_def)

lemma read_i2c_eq:
  "ak8963Read_i2c magData m =
     (if \<not> fst (bus m 0) \<or> fill (snd (bus m 0)) 1 (stack m) 0 AND STATUS1_DATA_READY = 0
      then (False, magData, m\<lparr>trace := trace m @ [I2cRead AK8963_MAG_I2C_ADDRESS
              AK8963_MAG_REG_STATUS1 1], bus := bus m \<circ> Suc\<rparr>)
      else if \<not> fst (bus m 1)
            \<or> fill (snd (bus m 1)) 7 (fill (snd (bus m 0)) 1 (stack m)) 6
                 AND STATUS2_DATA_ERROR \<noteq> 0
            \<or> fill (snd (bus m 1)) 7 (fill (snd (bus m 0)) 1 (stack m)) 6
                 AND STATUS2_MAG_SENSOR_OVERFLOW \<noteq> 0
      then (False, magData, m\<lparr>trace := trace m @
              [I2cRead AK8963_MAG_I2C_ADDRESS AK8963_MAG_REG_STATUS1 1,
               I2cRead AK8963_MAG_I2C_ADDRESS AK8963_MAG_REG_HXL 7],
              bus := bus m \<circ> Suc \<circ> Suc\<rparr>)
      else (wack m 0,
            store_magData (fill (snd (bus m 1)) 7 (fill (snd (bus m 0)) 1 (stack m)))
              (magGain m) magData,
            m\<lparr>trace := trace m @
              [I2cRead AK8963_MAG_I2C_ADDRESS AK8963_MAG_REG_STATUS1 1,
               I2cRead AK8963_MAG_I2C_ADDRESS AK8963_MAG_REG_HXL 7,
               I2cWrite AK8963_MAG_I2C_ADDRESS AK8963_MAG_REG_CNTL1 CNTL1_MODE_ONCE],
              bus := bus m \<circ> Suc \<circ> Suc, wack := wack m \<circ> Suc\<rparr>))"
  by (simp add: ak8963Read_i2c_def ak8963SensorRead_i2c_def ak8963SensorWrite_i2c_def
      prim_defs Let_def comp_def)

lemma read_i2c_magGain: "magGain (snd (snd (ak8963Read_i2c magData m))) = magGain m"
  by (simp add: read_i2c_eq)

lemma read_spi_magGain: "magGain (snd (snd (ak8963Read_spi magData m))) = magGain m"
  by (simp add: ak8963Read_spi_def restart_magGain)


text \<open>
  C7. In both builds \<open>ak8963Init\<close> leaves in \<open>magGain\<close>, for each axis, the value
  \<open>((trim - 128) / 256 + 1) * 30\<close> of the corresponding trim byte of the fuse ROM read,
  taken as a signed 8-bit number (the \<open>float\<close> evaluation is exact); and a poll of
  \<open>ak8963Read\<close>, in either build, leaves \<open>magGain\<close> as it was.
\<close>

theorem init_gains:
  "magGain (snd (ak8963Init_spi m)) X = gain_formula (sint (snd (bus m 0) 0))
   \<and> magGain (snd (ak8963Init_spi m)) Y = gain_formula (sint (snd (bus m 0) 1))
   \<and> magGain (snd (ak8963Init_spi m)) Z = gain_formula (sint (snd (bus m 0) 2))
   \<and> magGain (snd (ak8963Init_i2c m)) X = gain_formula (sint (snd (bus m 0) 0))
   \<and> magGain (snd (ak8963Init_i2c m)) Y = gain_formula (sint (snd (bus m 0) 1))
   \<and> magGain (snd (ak8963Init_i2c m)) Z = gain_formula (sint (snd (bus m 0) 2))
   \<and> magGain (snd (snd (ak8963Read_spi magData m))) = magGain m
   \<and> magGain (snd (snd (ak8963Read_i2c magData m))) = magGain m"
  by (simp add: init_spi_magGain init_i2c_magGain gain_of_trim_eq read_spi_magGain
      read_i2c_magGain X_def Y_def Z_def)

theorem init_gains_witness:
  "magGain (snd (ak8963Init_spi fresh)) X = 15 / 2
   \<and> magGain (snd (ak8963Init_spi fresh)) Y = 15
   \<and> magGain (snd (ak8963Init_spi fresh)) Z = 3825 / 128
   \<and> magGain (snd (ak8963Init_i2c fresh)) X = 15 / 2
   \<and> magGain (snd (snd (ak8963Read_spi (always 0) (snd (ak8963Init_spi fresh)))))
       = magGain (snd (ak8963Init_spi fresh))
   \<and> magGain (snd (snd (ak8963Read_i2c (always 0) (snd (ak8963Init_i2c fresh)))))
       = magGain (snd (ak8963Init_i2c fresh))"
proof -
  have trims: "gain_formula (sint (snd (bus fresh 0) 0)) = 15 / 2"
      "gain_formula (sint (snd (bus fresh 0) 1)) = 15"
      "gain_formula (sint (snd (bus fresh 0) 2)) = 3825 / 128"
    by (simp_all add: fresh_def boot_def always_def bytes_of_def gain_formula_def)
  note w = init_gains [of fresh "always 0"]
  have x: "magGain (snd (ak8963Init_spi fresh)) X = 15 / 2"
    using w [THEN conjunct1] by (simp only: trims)
  have y: "magGain (snd (ak8963Init_spi fresh)) Y = 15"
    using w [THEN conjunct2, THEN conjunct1] by (simp only: trims)
  have z: "magGain (snd (ak8963Init_spi fresh)) Z = 3825 / 128"
    using w [THEN conjunct2, THEN conjunct2, THEN conjunct1] by (simp only: trims)
  have xi: "magGain (snd (ak8963Init_i2c fresh)) X = 15 / 2"
    using w [THEN conjunct2, THEN conjunct2, THEN conjunct2, THEN conjunct1]
    by (simp only: trims)
  have rs: "magGain (snd (snd (ak8963Read_spi (always 0) (snd (ak8963Init_spi fresh)))))
       = magGain (snd (ak8963Init_spi fresh))"
    using init_gains [of "snd (ak8963Init_spi fresh)" "always 0"] by blast
  have ri: "magGain (snd (snd (ak8963Read_i2c (always 0) (snd (ak8963Init_i2c fresh)))))
       = magGain (snd (ak8963Init_i2c fresh))"
    using init_gains [of "snd (ak8963Init_i2c fresh)" "always 0"] by blast
  show ?thesis
    using x y z xi rs ri by (intro conjI)
qed

lemma sample_values:
  "sample_of 0x10 0x00 (15 / 2) = - 120"
  "sample_of 0x20 0x00 (15 / 2) = - 240"
  "sample_of 0x30 0x00 (15 / 2) = - 360"
proof -
  have "f32_round (of_int (- 120)) = of_int (- 120)"
      "f32_round (of_int (- 240)) = of_int (- 240)"
      "f32_round (of_int (- 360)) = of_int (- 360)"
    by (rule f32_round_int, simp)+
  then show "sample_of 0x10 0x00 (15 / 2) = - 120"
      "sample_of 0x20 0x00 (15 / 2) = - 240"
      "sample_of 0x30 0x00 (15 / 2) = - 360"
    by (simp_all add: sample_of_def le_s16_def f2i16_def f32_trunc_def)
qed

lemma data_due_timeRemaining_again:
  "fst (ak8963SensorQueuedReadTimeRemaining
         (snd (ak8963SensorQueuedReadTimeRemaining data_due))) = 0"
  by (simp add: data_due_def always_def timeRemaining_pending timeRemaining_at_def comp_def)

text \<open>
  C1, amended. SPI build: a poll in \<open>WAITING_FOR_DATA\<close> whose settle time has elapsed and
  whose 7-byte read delivers a buffer with neither status2 test bit set stores, for each
  axis, the sample of that axis's register pair (the negation of its little-endian
  signed 16-bit value times the axis's gain, as a \<open>float\<close> product converted to
  \<open>int16_t\<close>), sets the state to \<open>CHECK_STATUS\<close>, re-arms the sensor by writing
  \<open>CNTL1_MODE_ONCE\<close> to \<open>CNTL1\<close>, and returns the result of that write, which is true.
  Direct I2C build: when the status read is acknowledged with \<open>DATA_READY\<close> set and the
  7-byte read is acknowledged with neither status2 test bit set, the same samples are
  stored, the same write is the last call of the poll, and the poll returns the
  acknowledgement of that write.
\<close>

theorem read_stores_scaled_sample:
  assumes "state ms = WAITING_FOR_DATA"
    and "fst (ak8963SensorQueuedReadTimeRemaining ms) = 0"
    and "len (queuedRead ms) = 7"
    and "bs = snd (bus ms 0)"
    and "bs 6 AND STATUS2_DATA_ERROR = 0"
    and "bs 6 AND STATUS2_MAG_SENSOR_OVERFLOW = 0"
    and "ms2 = (snd (snd (ak8963SensorCompleteRead (stack ms)
                   (snd (ak8963SensorQueuedReadTimeRemaining ms)))))\<lparr>state := CHECK_STATUS\<rparr>"
    and "fst (bus mi 0)"
    and "snd (bus mi 0) 0 AND STATUS1_DATA_READY \<noteq> 0"
    and "fst (bus mi 1)"
    and "bi = snd (bus mi 1)"
    and "bi 6 AND STATUS2_DATA_ERROR = 0"
    and "bi 6 AND STATUS2_MAG_SENSOR_OVERFLOW = 0"
    and "mi2 = mi\<lparr>trace := trace mi @
                  [I2cRead AK8963_MAG_I2C_ADDRESS AK8963_MAG_REG_STATUS1 1,
                   I2cRead AK8963_MAG_I2C_ADDRESS AK8963_MAG_REG_HXL 7],
                bus := bus mi \<circ> Suc \<circ> Suc\<rparr>"
  shows "fst (ak8963Read_spi magData ms) = True
    \<and> fst (snd (ak8963Read_spi magData ms)) =
        magData(X := sample_of (bs 0) (bs 1) (magGain ms X),
                Y := sample_of (bs 2) (bs 3) (magGain ms Y),
                Z := sample_of (bs 4) (bs 5) (magGain ms Z))
    \<and> fst (ak8963Read_spi magData ms)
        = fst (ak8963SensorWrite_spi AK8963_MAG_I2C_ADDRESS AK8963_MAG_REG_CNTL1
                 CNTL1_MODE_ONCE ms2)
    \<and> snd (snd (ak8963Read_spi magData ms))
        = snd (ak8963SensorWrite_spi AK8963_MAG_I2C_ADDRESS AK8963_MAG_REG_CNTL1
                 CNTL1_MODE_ONCE ms2)
    \<and> state (snd (snd (ak8963Read_spi magData ms))) = CHECK_STATUS
    \<and> trace (snd (snd (ak8963Read_spi magData ms))) =
        trace ms
        @ (if 0 < fst (ak8963SensorQueuedReadTimeRemaining
                        (snd (ak8963SensorQueuedReadTimeRemaining ms)))
           then [DelayUs (fst (ak8963SensorQueuedReadTimeRemaining
                                 (snd (ak8963SensorQueuedReadTimeRemaining ms))))]
           else [])
        @ [SpiReadBuf MPU_RA_EXT_SENS_DATA_00 7,
           SpiWrite MPU_RA_I2C_SLV0_ADDR AK8963_MAG_I2C_ADDRESS, DelayUs 10,
           SpiWrite MPU_RA_I2C_SLV0_REG AK8963_MAG_REG_CNTL1, DelayUs 10,
           SpiWrite MPU_RA_I2C_SLV0_DO CNTL1_MODE_ONCE, DelayUs 10,
           SpiWrite MPU_RA_I2C_SLV0_CTRL 0x81, DelayUs 10]
    \<and> fst (ak8963Read_i2c magData mi) = wack mi 0
    \<and> fst (snd (ak8963Read_i2c magData mi)) =
        magData(X := sample_of (bi 0) (bi 1) (magGain mi X),
                Y := sample_of (bi 2) (bi 3) (magGain mi Y),
                Z := sample_of (bi 4) (bi 5) (magGain mi Z))
    \<and> fst (ak8963Read_i2c magData mi)
        = fst (ak8963SensorWrite_i2c AK8963_MAG_I2C_ADDRESS AK8963_MAG_REG_CNTL1
                 CNTL1_MODE_ONCE mi2)
    \<and> snd (snd (ak8963Read_i2c magData mi))
        = snd (ak8963SensorWrite_i2c AK8963_MAG_I2C_ADDRESS AK8963_MAG_REG_CNTL1
                 CNTL1_MODE_ONCE mi2)
    \<and> trace (snd (snd (ak8963Read_i2c magData mi))) =
        trace mi
        @ [I2cRead AK8963_MAG_I2C_ADDRESS AK8963_MAG_REG_STATUS1 1,
           I2cRead AK8963_MAG_I2C_ADDRESS AK8963_MAG_REG_HXL 7,
           I2cWrite AK8963_MAG_I2C_ADDRESS AK8963_MAG_REG_CNTL1 CNTL1_MODE_ONCE]"
proof -
  have spi: "ak8963Read_spi magData ms =
      (True, store_magData (fill bs 7 (stack ms)) (magGain ms) magData,
       snd (ak8963SensorWrite_spi AK8963_MAG_I2C_ADDRESS AK8963_MAG_REG_CNTL1 CNTL1_MODE_ONCE
         ms2))"
    using assms(3-6) by (simp add: poll_data [OF assms(1,2)] Let_def fill_def assms(7))
  have ms2: "state ms2 = CHECK_STATUS"
      "trace ms2 = trace ms
        @ (if 0 < fst (ak8963SensorQueuedReadTimeRemaining
                        (snd (ak8963SensorQueuedReadTimeRemaining ms)))
           then [DelayUs (fst (ak8963SensorQueuedReadTimeRemaining
                                 (snd (ak8963SensorQueuedReadTimeRemaining ms))))]
           else [])
        @ [SpiReadBuf MPU_RA_EXT_SENS_DATA_00 7]"
    using assms(3) by (simp_all add: assms(7) completeRead_eq)
  have s1: "fst (ak8963Read_spi magData ms) = True"
    by (simp add: spi)
  have s2: "fst (snd (ak8963Read_spi magData ms)) =
        magData(X := sample_of (bs 0) (bs 1) (magGain ms X),
                Y := sample_of (bs 2) (bs 3) (magGain ms Y),
                Z := sample_of (bs 4) (bs 5) (magGain ms Z))"
    by (simp add: spi store_magData_eq fill_def)
  have s3: "fst (ak8963Read_spi magData ms)
        = fst (ak8963SensorWrite_spi AK8963_MAG_I2C_ADDRESS AK8963_MAG_REG_CNTL1
                 CNTL1_MODE_ONCE ms2)"
    by (simp add: spi sensorWrite_spi_eq)
  have s4: "snd (snd (ak8963Read_spi magData ms))
        = snd (ak8963SensorWrite_spi AK8963_MAG_I2C_ADDRESS AK8963_MAG_REG_CNTL1
                 CNTL1_MODE_ONCE ms2)"
    by (simp add: spi)
  have s5: "state (snd (snd (ak8963Read_spi magData ms))) = CHECK_STATUS"
    by (simp add: s4 sensorWrite_spi_eq ms2)
  have s6: "trace (snd (snd (ak8963Read_spi magData ms))) =
        trace ms
        @ (if 0 < fst (ak8963SensorQueuedReadTimeRemaining
                        (snd (ak8963SensorQueuedReadTimeRemaining ms)))
           then [DelayUs (fst (ak8963SensorQueuedReadTimeRemaining
                                 (snd (ak8963SensorQueuedReadTimeRemaining ms))))]
           else [])
        @ [SpiReadBuf MPU_RA_EXT_SENS_DATA_00 7,
           SpiWrite MPU_RA_I2C_SLV0_ADDR AK8963_MAG_I2C_ADDRESS, DelayUs 10,
           SpiWrite MPU_RA_I2C_SLV0_REG AK8963_MAG_REG_CNTL1, DelayUs 10,
           SpiWrite MPU_RA_I2C_SLV0_DO CNTL1_MODE_ONCE, DelayUs 10,
           SpiWrite MPU_RA_I2C_SLV0_CTRL 0x81, DelayUs 10]"
    by (simp add: s4 sensorWrite_spi_eq ms2)
  have w: "ak8963SensorWrite_i2c AK8963_MAG_I2C_ADDRESS AK8963_MAG_REG_CNTL1 CNTL1_MODE_ONCE mi2
      = (wack mi 0,
         mi\<lparr>trace := trace mi @
              [I2cRead AK8963_MAG_I2C_ADDRESS AK8963_MAG_REG_STATUS1 1,
               I2cRead AK8963_MAG_I2C_ADDRESS AK8963_MAG_REG_HXL 7,
               I2cWrite AK8963_MAG_I2C_ADDRESS AK8963_MAG_REG_CNTL1 CNTL1_MODE_ONCE],
              bus := bus mi \<circ> Suc \<circ> Suc, wack := wack mi \<circ> Suc\<rparr>)"
    by (simp add: ak8963SensorWrite_i2c_def i2cWrite_def emit_def assms(14) comp_def)
  have i1: "fst (ak8963Read_i2c magData mi) = wack mi 0"
    using assms(8-13) by (simp add: read_i2c_eq fill_def)
  have i2: "fst (snd (ak8963Read_i2c magData mi)) =
        magData(X := sample_of (bi 0) (bi 1) (magGain mi X),
                Y := sample_of (bi 2) (bi 3) (magGain mi Y),
                Z := sample_of (bi 4) (bi 5) (magGain mi Z))"
    using assms(8-13) by (simp add: read_i2c_eq fill_def store_magData_eq)
  have i4: "snd (snd (ak8963Read_i2c magData mi))
        = snd (ak8963SensorWrite_i2c AK8963_MAG_I2C_ADDRESS AK8963_MAG_REG_CNTL1
                 CNTL1_MODE_ONCE mi2)"
    using assms(8-13) by (simp add: read_i2c_eq fill_def w)
  have i3: "fst (ak8963Read_i2c magData mi)
        = fst (ak8963SensorWrite_i2c AK8963_MAG_I2C_ADDRESS AK8963_MAG_REG_CNTL1
                 CNTL1_MODE_ONCE mi2)"
    by (simp add: i1 w)
  have i5: "trace (snd (snd (ak8963Read_i2c magData mi))) =
        trace mi
        @ [I2cRead AK8963_MAG_I2C_ADDRESS AK8963_MAG_REG_STATUS1 1,
           I2cRead AK8963_MAG_I2C_ADDRESS AK8963_MAG_REG_HXL 7,
           I2cWrite AK8963_MAG_I2C_ADDRESS AK8963_MAG_REG_CNTL1 CNTL1_MODE_ONCE]"
    by (simp add: i4 w)
  show ?thesis
    using s1 s2 s3 s4 s5 s6 i1 i2 i3 i4 i5 by (intro conjI)
qed


theorem read_stores_scaled_sample_witness:
  "state data_due = WAITING_FOR_DATA
   \<and> fst (ak8963SensorQueuedReadTimeRemaining data_due) = 0
   \<and> len (queuedRead data_due) = 7
   \<and> fst (ak8963Read_spi (always 0) data_due) = True
   \<and> fst (snd (ak8963Read_spi (always 0) data_due)) X = - 120
   \<and> fst (snd (ak8963Read_spi (always 0) data_due)) Y = - 240
   \<and> fst (snd (ak8963Read_spi (always 0) data_due)) Z = - 360
   \<and> state (snd (snd (ak8963Read_spi (always 0) data_due))) = CHECK_STATUS
   \<and> trace (snd (snd (ak8963Read_spi (always 0) data_due))) =
        [SpiReadBuf MPU_RA_EXT_SENS_DATA_00 7,
         SpiWrite MPU_RA_I2C_SLV0_ADDR 0x0C, DelayUs 10,
         SpiWrite MPU_RA_I2C_SLV0_REG 0x0A, DelayUs 10,
         SpiWrite MPU_RA_I2C_SLV0_DO 0x01, DelayUs 10,
         SpiWrite MPU_RA_I2C_SLV0_CTRL 0x81, DelayUs 10]
   \<and> fst (bus (i2c_ready True) 0) \<and> fst (bus (i2c_ready True) 1)
   \<and> fst (ak8963Read_i2c (always 0) (i2c_ready True)) = True
   \<and> fst (snd (ak8963Read_i2c (always 0) (i2c_ready True))) X = - 120
   \<and> fst (snd (ak8963Read_i2c (always 0) (i2c_ready True))) Y = - 240
   \<and> fst (snd (ak8963Read_i2c (always 0) (i2c_ready True))) Z = - 360
   \<and> trace (snd (snd (ak8963Read_i2c (always 0) (i2c_ready True)))) =
        [I2cRead 0x0C 0x02 1, I2cRead 0x0C 0x03 7, I2cWrite 0x0C 0x0A 0x01]"
proof -
  define ms2 where "ms2 = (snd (snd (ak8963SensorCompleteRead (stack data_due)
      (snd (ak8963SensorQueuedReadTimeRemaining data_due)))))\<lparr>state := CHECK_STATUS\<rparr>"
  define mi2 where "mi2 = (i2c_ready True)\<lparr>trace := trace (i2c_ready True) @
                  [I2cRead AK8963_MAG_I2C_ADDRESS AK8963_MAG_REG_STATUS1 1,
                   I2cRead AK8963_MAG_I2C_ADDRESS AK8963_MAG_REG_HXL 7],
                bus := bus (i2c_ready True) \<circ> Suc \<circ> Suc\<rparr>"
  have s: "state data_due = WAITING_FOR_DATA" "len (queuedRead data_due) = 7"
      "sample_bytes = snd (bus data_due 0)"
    by (simp_all add: data_due_def always_def)
  have clean: "sample_bytes 6 AND STATUS2_DATA_ERROR = 0"
      "sample_bytes 6 AND STATUS2_MAG_SENSOR_OVERFLOW = 0"
    by (simp_all add: sample_bytes_def bytes_of_def)
  have i: "fst (bus (i2c_ready True) 0)"
      "snd (bus (i2c_ready True) 0) 0 AND STATUS1_DATA_READY \<noteq> 0"
      "fst (bus (i2c_ready True) 1)" "sample_bytes = snd (bus (i2c_ready True) 1)"
    by (simp_all add: i2c_ready_def always_def STATUS1_DATA_READY_def)
  have bytes: "sample_bytes 0 = 0x10" "sample_bytes (Suc 0) = 0" "sample_bytes 2 = 0x20"
      "sample_bytes 3 = 0" "sample_bytes 4 = 0x30" "sample_bytes 5 = 0"
    by (simp_all add: sample_bytes_def bytes_of_def)
  have g: "magGain data_due = always (15 / 2)" "magGain (i2c_ready True) = always (15 / 2)"
      "wack (i2c_ready True) 0 = True" "trace data_due = []" "trace (i2c_ready True) = []"
    by (simp_all add: data_due_def i2c_ready_def always_def)
  note w = read_stores_scaled_sample [OF s(1) data_due_timeRemaining s(2,3) clean ms2_def i clean mi2_def,
      of "always 0"]
  have a: "fst (ak8963Read_spi (always 0) data_due) = True"
    using w [THEN conjunct1] .
  have b: "fst (snd (ak8963Read_spi (always 0) data_due)) X = - 120"
      "fst (snd (ak8963Read_spi (always 0) data_due)) Y = - 240"
      "fst (snd (ak8963Read_spi (always 0) data_due)) Z = - 360"
    by (simp_all add: w [THEN conjunct2, THEN conjunct1] bytes g always_def sample_values
        X_def Y_def Z_def)
  have c: "state (snd (snd (ak8963Read_spi (always 0) data_due))) = CHECK_STATUS"
    using w [THEN conjunct2, THEN conjunct2, THEN conjunct2, THEN conjunct2, THEN conjunct1] .
  have d: "trace (snd (snd (ak8963Read_spi (always 0) data_due))) =
        [SpiReadBuf MPU_RA_EXT_SENS_DATA_00 7,
         SpiWrite MPU_RA_I2C_SLV0_ADDR 0x0C, DelayUs 10,
         SpiWrite MPU_RA_I2C_SLV0_REG 0x0A, DelayUs 10,
         SpiWrite MPU_RA_I2C_SLV0_DO 0x01, DelayUs 10,
         SpiWrite MPU_RA_I2C_SLV0_CTRL 0x81, DelayUs 10]"
    using w [THEN conjunct2, THEN conjunct2, THEN conjunct2, THEN conjunct2, THEN conjunct2,
        THEN conjunct1]
    by (simp add: data_due_timeRemaining_again g AK8963_MAG_I2C_ADDRESS_def
        AK8963_MAG_REG_CNTL1_def CNTL1_MODE_ONCE_def)
  note wi = w [THEN conjunct2, THEN conjunct2, THEN conjunct2, THEN conjunct2, THEN conjunct2,
        THEN conjunct2]
  have e: "fst (ak8963Read_i2c (always 0) (i2c_ready True)) = True"
    using wi [THEN conjunct1] by (simp add: g)
  have f: "fst (snd (ak8963Read_i2c (always 0) (i2c_ready True))) X = - 120"
      "fst (snd (ak8963Read_i2c (always 0) (i2c_ready True))) Y = - 240"
      "fst (snd (ak8963Read_i2c (always 0) (i2c_ready True))) Z = - 360"
    by (simp_all add: wi [THEN conjunct2, THEN conjunct1] bytes g always_def sample_values
        X_def Y_def Z_def)
  have h: "trace (snd (snd (ak8963Read_i2c (always 0) (i2c_ready True)))) =
        [I2cRead 0x0C 0x02 1, I2cRead 0x0C 0x03 7, I2cWrite 0x0C 0x0A 0x01]"
    using wi [THEN conjunct2, THEN conjunct2, THEN conjunct2, THEN conjunct2]
    by (simp add: g AK8963_MAG_I2C_ADDRESS_def AK8963_MAG_REG_STATUS1_def
        AK8963_MAG_REG_HXL_def AK8963_MAG_REG_CNTL1_def CNTL1_MODE_ONCE_def)
  show ?thesis
    using s(1) data_due_timeRemaining s(2) a b c d i(1,3) e f h by (intro conjI)
qed

theorem read_i2c_rearm_nack:
  "fst (bus (i2c_ready False) 0)
   \<and> snd (bus (i2c_ready False) 0) 0 AND STATUS1_DATA_READY \<noteq> 0
   \<and> fst (bus (i2c_ready False) 1)
   \<and> snd (bus (i2c_ready False) 1) 6 AND STATUS2_DATA_ERROR = 0
   \<and> snd (bus (i2c_ready False) 1) 6 AND STATUS2_MAG_SENSOR_OVERFLOW = 0
   \<and> fst (ak8963Read_i2c (always 0) (i2c_ready False)) = False
   \<and> fst (snd (ak8963Read_i2c (always 0) (i2c_ready False))) X = - 120"
proof -
  have i: "fst (bus (i2c_ready False) 0)"
      "snd (bus (i2c_ready False) 0) 0 AND STATUS1_DATA_READY \<noteq> 0"
      "fst (bus (i2c_ready False) 1)"
      "snd (bus (i2c_ready False) 1) 6 AND STATUS2_DATA_ERROR = 0"
      "snd (bus (i2c_ready False) 1) 6 AND STATUS2_MAG_SENSOR_OVERFLOW = 0"
    by (simp_all add: i2c_ready_def always_def STATUS1_DATA_READY_def sample_bytes_def
        bytes_of_def)
  have f: "fst (bus (i2c_ready False) (Suc 0))"
      "snd (bus (i2c_ready False) (Suc 0)) = sample_bytes"
      "snd (bus (i2c_ready False) 0) = always 1"
      "magGain (i2c_ready False) = always (15 / 2)" "wack (i2c_ready False) 0 = False"
    by (simp_all add: i2c_ready_def always_def)
  have bytes: "sample_bytes 0 = 0x10" "sample_bytes (Suc 0) = 0" "sample_bytes 6 = 0"
    by (simp_all add: sample_bytes_def bytes_of_def)
  have r: "fst (ak8963Read_i2c (always 0) (i2c_ready False)) = False"
    using i(1) by (simp add: read_i2c_eq f bytes fill_def always_def STATUS1_DATA_READY_def)
  have d: "fst (snd (ak8963Read_i2c (always 0) (i2c_ready False))) X = - 120"
    using i(1)
    by (simp add: read_i2c_eq f bytes fill_def always_def STATUS1_DATA_READY_def
        store_magData_eq sample_values X_def Y_def Z_def)
  show ?thesis
    using i r d by (intro conjI)
qed

end
